theory Spec2Isabelle
  imports Main "HOL-Library.AList"
begin

section \<open>Python library functions used by ftp/utils.py\<close>

text \<open>
  Byte strings and text strings are both character lists. The functions of this section
  are the ones of the Python standard library that \<open>ftp/utils.py\<close> calls on strings, with
  \<open>os.path\<close> taken as \<open>posixpath\<close>.
\<close>

type_synonym bytes = string

text \<open>\<open>s.strip(chars)\<close> for a one-character \<open>chars\<close>: leading and trailing occurrences go.\<close>

definition strip :: "char \<Rightarrow> string \<Rightarrow> string" where
  "strip c s = rev (dropWhile (\<lambda>x. x = c) (rev (dropWhile (\<lambda>x. x = c) s)))"

text \<open>
  \<open>s.split(sep)\<close> for a one-character separator: one field per separator plus one, empty
  fields kept; the empty string gives the one empty field.
\<close>

fun split_from :: "char \<Rightarrow> string \<Rightarrow> string \<Rightarrow> string list" where
  "split_from sep cur [] = [cur]"
| "split_from sep cur (x # xs) =
     (if x = sep then cur # split_from sep [] xs else split_from sep (cur @ [x]) xs)"

definition split :: "char \<Rightarrow> string \<Rightarrow> string list" where
  "split sep s = split_from sep [] s"

text \<open>\<open>s.rfind(c)\<close>: the highest index of \<open>c\<close>, or \<open>-1\<close>.\<close>

fun rfind_from :: "char \<Rightarrow> string \<Rightarrow> int \<Rightarrow> int \<Rightarrow> int" where
  "rfind_from c [] i found = found"
| "rfind_from c (x # xs) i found = rfind_from c xs (i + 1) (if x = c then i else found)"

definition rfind :: "char \<Rightarrow> string \<Rightarrow> int" where
  "rfind c s = rfind_from c s 0 (- 1)"

text \<open>
  \<open>genericpath._splitext(p, '/', None, '.')\<close>: the extension starts at the last dot of the
  last path component, unless that component has only dots before it.
  \<^verbatim>\<open>
    sepIndex = p.rfind(sep)
    dotIndex = p.rfind(extsep)
    if dotIndex > sepIndex:
        filenameIndex = sepIndex + 1
        while filenameIndex < dotIndex:
            if p[filenameIndex:filenameIndex+1] != extsep:
                return p[:dotIndex], p[dotIndex:]
            filenameIndex += 1
    return p, p[:0]
  \<close>
\<close>

function splitext_scan :: "string \<Rightarrow> int \<Rightarrow> int \<Rightarrow> string \<times> string" where
  "splitext_scan p filenameIndex dotIndex =
     (if 0 \<le> filenameIndex \<and> filenameIndex < dotIndex then
        (if take 1 (drop (nat filenameIndex) p) \<noteq> ''.''
         then (take (nat dotIndex) p, drop (nat dotIndex) p)
         else splitext_scan p (filenameIndex + 1) dotIndex)
      else (p, []))"
  by pat_completeness auto
termination
  by (relation "measure (\<lambda>(p, f, d). nat (d - f))") auto

definition splitext :: "string \<Rightarrow> string \<times> string" where
  "splitext p =
     (let sepIndex = rfind CHR ''/'' p; dotIndex = rfind CHR ''.'' p
      in if dotIndex > sepIndex then splitext_scan p (sepIndex + 1) dotIndex else (p, []))"

text \<open>\<open>posixpath.join(a, b)\<close>.\<close>

definition path_join :: "string \<Rightarrow> string \<Rightarrow> string" where
  "path_join a b =
     (if take 1 b = ''/'' then b
      else if a = [] \<or> take 1 (rev a) = ''/'' then a @ b
      else a @ ''/'' @ b)"

text \<open>\<open>str(n)\<close> of an integer, as \<open>'{}'.format(n)\<close> writes it.\<close>

definition digit_char :: "nat \<Rightarrow> char" where
  "digit_char d = char_of (48 + d)"

fun str_nat :: "nat \<Rightarrow> string" where
  "str_nat n = (if n < 10 then [digit_char n] else str_nat (n div 10) @ [digit_char (n mod 10)])"

text \<open>The number a string of digits denotes, as \<open>int(s)\<close> reads it.\<close>

fun digits_val :: "string \<Rightarrow> nat" where
  "digits_val s = foldl (\<lambda>a c. 10 * a + (of_char c - 48)) 0 s"

definition str_int :: "int \<Rightarrow> string" where
  "str_int i = (if i < 0 then CHR ''-'' # str_nat (nat (- i)) else str_nat (nat i))"

section \<open>Exceptions\<close>

text \<open>
  \<open>FtpError\<close> stands for \<open>ftplib.Error\<close> and its subclasses, \<open>OSError\<close> for the built-in
  class and its subclasses (socket errors and timeouts among them), \<open>RetryError\<close> for
  \<open>tenacity.RetryError\<close>, which carries the exception of the last attempt.
  \<open>ftplib.all_errors\<close> is the tuple \<open>(Error, OSError, EOFError)\<close>.
  \<open>FalsyError\<close> stands for an exception of a class of the caller's whose instances are
  false in a condition (it defines \<open>__bool__\<close> or \<open>__len__\<close>); \<open>truth_value e\<close> is
  \<open>bool(e)\<close>, true for every exception that does not define it otherwise.
\<close>

datatype exn =
    FtpError string
  | OSError string
  | EOFError
  | RetryError exn
  | OtherError string
  | FalsyError string

fun ftplib_all_errors :: "exn \<Rightarrow> bool" where
  "ftplib_all_errors (FtpError m) = True"
| "ftplib_all_errors (OSError m) = True"
| "ftplib_all_errors EOFError = True"
| "ftplib_all_errors (RetryError e) = False"
| "ftplib_all_errors (OtherError m) = False"
| "ftplib_all_errors (FalsyError m) = False"

fun truth_value :: "exn \<Rightarrow> bool" where
  "truth_value (FalsyError m) = False"
| "truth_value e = True"

section \<open>The retry policy\<close>

text \<open>
  \<^verbatim>\<open>
    retry = tenacity.retry(stop=tenacity.stop_after_attempt(3), wait=tenacity.wait_fixed(5),
                           retry=tenacity.retry_if_exception_type(ftplib.all_errors))
  \<close>
  A wrapped function is a state transformer that returns a value (\<open>Inr\<close>) or raises
  (\<open>Inl\<close>), or does not return at all (\<open>None\<close>). The loop is the one of
  \<open>tenacity.Retrying.__call__\<close> and \<open>iter\<close>, with \<open>reraise\<close> left at its default: an outcome
  the \<open>retry\<close> predicate rejects is handed back as it is; otherwise, when \<open>stop\<close> holds, a
  \<open>RetryError\<close> made of the last outcome is raised; otherwise the wait is added to
  \<open>idle_for\<close>, the attempt number goes up and the function runs again.
\<close>

record retry_state =
  attempt_number :: nat
  idle_for :: nat

definition stop_after_attempt :: "nat \<Rightarrow> retry_state \<Rightarrow> bool" where
  "stop_after_attempt max_attempt_number rs = (attempt_number rs \<ge> max_attempt_number)"

definition wait_fixed :: "nat \<Rightarrow> retry_state \<Rightarrow> nat" where
  "wait_fixed w rs = w"

definition retry_if_exception_type :: "(exn \<Rightarrow> bool) \<Rightarrow> exn + 'a \<Rightarrow> bool" where
  "retry_if_exception_type types outcome =
     (case outcome of Inl e \<Rightarrow> types e | Inr v \<Rightarrow> False)"

partial_function (option) retrying ::
  "(retry_state \<Rightarrow> bool) \<Rightarrow> (retry_state \<Rightarrow> nat) \<Rightarrow> (exn + 'a \<Rightarrow> bool) \<Rightarrow>
   ('s \<Rightarrow> ((exn + 'a) \<times> 's) option) \<Rightarrow> retry_state \<Rightarrow> 's \<Rightarrow>
   ((exn + 'a) \<times> 's \<times> retry_state) option" where
  "retrying stop wait retry fn rs s =
     (case fn s of
        None \<Rightarrow> None
      | Some (outcome, s') \<Rightarrow>
          if \<not> retry outcome then Some (outcome, s', rs)
          else if stop rs then
            (case outcome of
               Inl e \<Rightarrow> Some (Inl (RetryError e), s', rs)
             | Inr v \<Rightarrow> Some (Inl (RetryError (OtherError ''result'')), s', rs))
          else retrying stop wait retry fn
                 (rs\<lparr>attempt_number := attempt_number rs + 1,
                     idle_for := idle_for rs + wait rs\<rparr>) s')"

declare retrying.simps [code]

definition retry ::
  "('s \<Rightarrow> ((exn + 'a) \<times> 's) option) \<Rightarrow> 's \<Rightarrow> ((exn + 'a) \<times> 's \<times> retry_state) option" where
  "retry fn s =
     retrying (stop_after_attempt 3) (wait_fixed 5) (retry_if_exception_type ftplib_all_errors)
       fn \<lparr>attempt_number = 1, idle_for = 0\<rparr> s"

section \<open>The unique name\<close>

text \<open>
  \<^verbatim>\<open>
    names = set(names)
    suffix = 1
    newname = file_name
    while newname in names:
        root, ext = os.path.splitext(file_name)
        newname = '{}-{}{}'.format(root, suffix, ext)
        suffix += 1
    return newname
  \<close>
\<close>

definition numbered_name :: "string \<Rightarrow> int \<Rightarrow> string" where
  "numbered_name file_name suffix =
     (case splitext file_name of (root, ext) \<Rightarrow> root @ ''-'' @ str_int suffix @ ext)"

partial_function (option) unique_name_loop ::
  "string set \<Rightarrow> string \<Rightarrow> int \<Rightarrow> string \<Rightarrow> string option" where
  "unique_name_loop names file_name suffix newname =
     (if newname \<in> names
      then unique_name_loop names file_name (suffix + 1) (numbered_name file_name suffix)
      else Some newname)"

declare unique_name_loop.simps [code]

section \<open>The world the functions act on\<close>

text \<open>
  Modelled from the spec: the FTP client, the local files and the logger that the
  functions of \<open>ftp/utils.py\<close> act on. None of them is code of the repository; the model
  follows section 6 of the specification and the documentation of \<open>ftplib\<close>:
  \<^item> the server keeps a tree of directories and files, each named by its absolute path, a
    list of segments; the connection has a working directory; a path given to a command is
    taken from the root when it starts with a slash and from the working directory
    otherwise, with empty and \<open>.\<close> segments skipped and \<open>..\<close> going up;
  \<^item> every call that talks to the server, and every \<open>open\<close> of a local file, may raise:
    \<open>faults w n\<close> is the exception raised by the call made when \<open>n\<close> calls are on the
    trace, if any. A call that does not raise has its ordinary effect. So a strict
    server, a lenient one and a failing network are all runs of the model;
  \<open>trace\<close> lists every call in order, raised or not.
\<close>

type_synonym path = "string list"

datatype event =
    Cwd string
  | Mkd string
  | Nlst string
  | Storbinary string
  | Retrbinary string
  | Close
  | OpenFile string string
  | CloseFile string
  | LogError exn

datatype local_entry = RegularFile bytes | Directory

record 'u world =
  pwd :: path
  dirs :: "path list"
  files :: "(path \<times> bytes) list"
  closed :: bool
  local_fs :: "string \<Rightarrow> local_entry option"
  open_files :: "string list"
  trace :: "event list"
  faults :: "nat \<Rightarrow> exn option"
  user :: 'u

definition enter :: "path \<Rightarrow> string \<Rightarrow> path" where
  "enter cur seg =
     (if seg = [] \<or> seg = ''.'' then cur else if seg = ''..'' then butlast cur else cur @ [seg])"

definition resolve :: "path \<Rightarrow> string \<Rightarrow> path" where
  "resolve cur p = foldl enter (if take 1 p = ''/'' then [] else cur) (split CHR ''/'' p)"

text \<open>Sequencing of two steps that may raise, and a \<open>for\<close> loop over a list.\<close>

definition thn ::
  "('s \<Rightarrow> (exn + 'a) \<times> 's) \<Rightarrow> ('a \<Rightarrow> 's \<Rightarrow> (exn + 'b) \<times> 's) \<Rightarrow> 's \<Rightarrow> (exn + 'b) \<times> 's" where
  "thn m f s = (case m s of (Inl e, s') \<Rightarrow> (Inl e, s') | (Inr a, s') \<Rightarrow> f a s')"

primrec for_each :: "('a \<Rightarrow> 's \<Rightarrow> (exn + unit) \<times> 's) \<Rightarrow> 'a list \<Rightarrow> 's \<Rightarrow> (exn + unit) \<times> 's" where
  "for_each body [] s = (Inr (), s)"
| "for_each body (x # xs) s =
     (case body x s of (Inl e, s') \<Rightarrow> (Inl e, s') | (Inr u, s') \<Rightarrow> for_each body xs s')"

definition call ::
  "event \<Rightarrow> ('u world \<Rightarrow> (exn + 'a) \<times> 'u world) \<Rightarrow> 'u world \<Rightarrow> (exn + 'a) \<times> 'u world" where
  "call ev run w =
     (let w' = w\<lparr>trace := trace w @ [ev]\<rparr>
      in case faults w (length (trace w)) of Some e \<Rightarrow> (Inl e, w') | None \<Rightarrow> run w')"

subsection \<open>The methods of the FTP client\<close>

definition cwd :: "string \<Rightarrow> 'u world \<Rightarrow> (exn + unit) \<times> 'u world" where
  "cwd dirname = call (Cwd dirname) (\<lambda>w. (Inr (), w\<lparr>pwd := resolve (pwd w) dirname\<rparr>))"

definition mkd :: "string \<Rightarrow> 'u world \<Rightarrow> (exn + unit) \<times> 'u world" where
  "mkd dirname =
     call (Mkd dirname) (\<lambda>w. (Inr (), w\<lparr>dirs := List.insert (resolve (pwd w) dirname) (dirs w)\<rparr>))"

text \<open>The names of the files and directories directly inside directory \<open>d\<close>.\<close>

definition entries :: "'u world \<Rightarrow> path \<Rightarrow> string list" where
  "entries w d = [last p. p \<leftarrow> map fst (files w) @ dirs w, p \<noteq> [] \<and> butlast p = d]"

text \<open>The names of the files alone, and the names that denote an entry of a directory.\<close>

definition file_names :: "'u world \<Rightarrow> path \<Rightarrow> string list" where
  "file_names w d = [last p. p \<leftarrow> map fst (files w), p \<noteq> [] \<and> butlast p = d]"

definition plain_name :: "string \<Rightarrow> bool" where
  "plain_name n = (n \<noteq> [] \<and> n \<noteq> ''.'' \<and> n \<noteq> ''..'' \<and> CHR ''/'' \<notin> set n)"

definition nlst :: "string \<Rightarrow> 'u world \<Rightarrow> (exn + string list) \<times> 'u world" where
  "nlst directory = call (Nlst directory) (\<lambda>w. (Inr (entries w (resolve (pwd w) directory)), w))"

text \<open>
  \<open>storbinary(cmd, fp)\<close> sends the bytes of the open local file \<open>fp\<close>; the server stores them
  under the path that follows the verb \<open>STOR\<close>, replacing what was there.
\<close>

definition storbinary :: "string \<Rightarrow> string \<Rightarrow> 'u world \<Rightarrow> (exn + unit) \<times> 'u world" where
  "storbinary cmd fp =
     call (Storbinary cmd)
       (\<lambda>w. case local_fs w fp of
               Some (RegularFile data) \<Rightarrow>
                 (Inr (), w\<lparr>files := AList.update (resolve (pwd w) (drop 5 cmd)) data (files w)\<rparr>)
             | _ \<Rightarrow> (Inl (OSError ''read''), w))"

text \<open>
  \<open>retrbinary(cmd, callback)\<close> hands the file to \<open>callback\<close> block by block, in order, at
  the default block size of 8192 bytes; an exception of the callback ends the transfer.
\<close>

function blocks :: "nat \<Rightarrow> 'a list \<Rightarrow> 'a list list" where
  "blocks n xs = (if n = 0 \<or> xs = [] then [] else take n xs # blocks n (drop n xs))"
  by pat_completeness auto
termination
  by (relation "measure (\<lambda>(n, xs). length xs)") auto

definition retrbinary ::
  "string \<Rightarrow> (bytes \<Rightarrow> 'u world \<Rightarrow> (exn + unit) \<times> 'u world) \<Rightarrow> 'u world \<Rightarrow> (exn + unit) \<times> 'u world" where
  "retrbinary cmd callback =
     call (Retrbinary cmd)
       (\<lambda>w. case map_of (files w) (resolve (pwd w) (drop 5 cmd)) of
               None \<Rightarrow> (Inl (FtpError ''550''), w)
             | Some data \<Rightarrow> for_each callback (blocks 8192 data) w)"

text \<open>\<open>close()\<close> sends nothing to the server and does not raise.\<close>

definition close :: "'u world \<Rightarrow> (exn + unit) \<times> 'u world" where
  "close w = (Inr (), w\<lparr>closed := True, trace := trace w @ [Close]\<rparr>)"

subsection \<open>Local files and the logger\<close>

definition path_exists :: "'u world \<Rightarrow> string \<Rightarrow> bool" where
  "path_exists w p = (local_fs w p \<noteq> None)"

definition path_isfile :: "'u world \<Rightarrow> string \<Rightarrow> bool" where
  "path_isfile w p = (case local_fs w p of Some (RegularFile b) \<Rightarrow> True | _ \<Rightarrow> False)"

text \<open>
  \<open>open(path, mode)\<close> for the modes \<open>'rb'\<close> and \<open>'wb'\<close>; the file object is named by its path.
  Opening for writing creates the file or empties it.
\<close>

definition open_file :: "string \<Rightarrow> string \<Rightarrow> 'u world \<Rightarrow> (exn + string) \<times> 'u world" where
  "open_file p mode =
     call (OpenFile p mode)
       (\<lambda>w. if mode = ''wb'' then
               (case local_fs w p of
                  Some Directory \<Rightarrow> (Inl (OSError ''Is a directory''), w)
                | _ \<Rightarrow> (Inr p, w\<lparr>local_fs := (local_fs w)(p \<mapsto> RegularFile []),
                                 open_files := p # open_files w\<rparr>))
             else
               (case local_fs w p of
                  Some (RegularFile b) \<Rightarrow> (Inr p, w\<lparr>open_files := p # open_files w\<rparr>)
                | Some Directory \<Rightarrow> (Inl (OSError ''Is a directory''), w)
                | None \<Rightarrow> (Inl (OSError ''No such file or directory''), w)))"

definition file_write :: "string \<Rightarrow> bytes \<Rightarrow> 'u world \<Rightarrow> (exn + unit) \<times> 'u world" where
  "file_write fp chunk w =
     (case local_fs w fp of
        Some (RegularFile b) \<Rightarrow> (Inr (), w\<lparr>local_fs := (local_fs w)(fp \<mapsto> RegularFile (b @ chunk))\<rparr>)
      | _ \<Rightarrow> (Inl (OSError ''write''), w))"

definition file_close :: "string \<Rightarrow> 'u world \<Rightarrow> 'u world" where
  "file_close fp w = w\<lparr>open_files := remove1 fp (open_files w), trace := trace w @ [CloseFile fp]\<rparr>"

definition logger_error :: "exn \<Rightarrow> 'u world \<Rightarrow> 'u world" where
  "logger_error e w = w\<lparr>trace := trace w @ [LogError e]\<rparr>"

text \<open>
  A handler supplied by a caller is a callable object that acts on the caller's own
  state: \<open>handler_call\<close> is what calling it does, \<open>handler_truth\<close> its truth value in a
  condition, which for an object that defines \<open>__bool__\<close> or \<open>__len__\<close> depends on that
  state and is true for a plain function. \<open>feed\<close> gives a callable a list of chunks one
  after the other, up to the first one at which it raises.
\<close>

record 'u handler =
  handler_truth :: "'u \<Rightarrow> bool"
  handler_call :: "bytes \<Rightarrow> 'u \<Rightarrow> exn + 'u"

primrec feed :: "(bytes \<Rightarrow> 'u \<Rightarrow> exn + 'u) \<Rightarrow> bytes list \<Rightarrow> 'u \<Rightarrow> exn + 'u" where
  "feed handler [] u = Inr u"
| "feed handler (chunk # chunks) u =
     (case handler chunk u of Inl e \<Rightarrow> Inl e | Inr u' \<Rightarrow> feed handler chunks u')"

definition call_handler ::
  "(bytes \<Rightarrow> 'u \<Rightarrow> exn + 'u) \<Rightarrow> bytes \<Rightarrow> 'u world \<Rightarrow> (exn + unit) \<times> 'u world" where
  "call_handler handler chunk w =
     (case handler chunk (user w) of Inl e \<Rightarrow> (Inl e, w) | Inr u \<Rightarrow> (Inr (), w\<lparr>user := u\<rparr>))"

section \<open>ftp/utils.py\<close>

subsection \<open>FTPLogErrors\<close>

text \<open>
  \<^verbatim>\<open>
    def __exit__(self, *exc_info):
        _, exc_val, _ = exc_info
        if exc_val:
            logger.error(exc_val, exc_info=True)
        self.thing.close()
  \<close>
  The value is whether the exception is to be suppressed: the method returns \<open>None\<close>.
\<close>

definition FTPLogErrors_exit :: "exn option \<Rightarrow> 'u world \<Rightarrow> bool \<times> 'u world" where
  "FTPLogErrors_exit exc_val w =
     (let w1 = (case exc_val of
                  Some e \<Rightarrow> if truth_value e then logger_error e w else w
                | None \<Rightarrow> w)
      in (False, snd (close w1)))"

text \<open>
  The statement \<open>with FTPLogErrors(thing) as c: body\<close>. When the body raises and
  \<open>__exit__\<close> returns a true value, the statement ends normally, with no value.
\<close>

definition with_FTPLogErrors ::
  "('u world \<Rightarrow> ((exn + 'a) \<times> 'u world) option) \<Rightarrow> 'u world \<Rightarrow>
   ((exn + 'a option) \<times> 'u world) option" where
  "with_FTPLogErrors body w =
     (case body w of
        None \<Rightarrow> None
      | Some (Inr v, w1) \<Rightarrow> Some (Inr (Some v), snd (FTPLogErrors_exit None w1))
      | Some (Inl e, w1) \<Rightarrow>
          (case FTPLogErrors_exit (Some e) w1 of
             (suppress, w2) \<Rightarrow> if suppress then Some (Inr None, w2) else Some (Inl e, w2)))"

subsection \<open>makedirs\<close>

text \<open>
  \<^verbatim>\<open>
    ftp_client.cwd(base_directory)
    subpaths = path.strip('/').split('/')
    for subpath in subpaths:
        ftp_client.mkd(subpath)
        ftp_client.cwd(subpath)
    ftp_client.cwd(base_directory)
  \<close>
\<close>

definition subpaths :: "string \<Rightarrow> string list" where
  "subpaths path = split CHR ''/'' (strip CHR ''/'' path)"

definition makedirs :: "string \<Rightarrow> string \<Rightarrow> 'u world \<Rightarrow> (exn + unit) \<times> 'u world" where
  "makedirs path base_directory =
     thn (cwd base_directory) (\<lambda>u.
     thn (for_each (\<lambda>subpath. thn (mkd subpath) (\<lambda>u. cwd subpath)) (subpaths path)) (\<lambda>u.
     cwd base_directory))"

text \<open>
  The directories a walk through a list of path segments passes, each one resolved in
  the one before it.
\<close>

fun descend :: "path \<Rightarrow> string list \<Rightarrow> path list" where
  "descend d [] = []"
| "descend d (seg # segs) = resolve d seg # descend (resolve d seg) segs"

subsection \<open>list\_files and get\_unique\_file\_name\_if\_exists\<close>

definition list_files :: "string \<Rightarrow> 'u world \<Rightarrow> (exn + string list) \<times> 'u world" where
  "list_files directory = nlst directory"

definition get_unique_file_name_if_exists ::
  "string \<Rightarrow> string \<Rightarrow> 'u world \<Rightarrow> ((exn + string) \<times> 'u world) option" where
  "get_unique_file_name_if_exists file_name directory w =
     (case list_files directory w of
        (Inl e, w') \<Rightarrow> Some (Inl e, w')
      | (Inr names, w') \<Rightarrow>
          (case unique_name_loop (set names) file_name 1 file_name of
             None \<Rightarrow> None
           | Some newname \<Rightarrow> Some (Inr newname, w')))"

subsection \<open>upload\_file\<close>

text \<open>
  \<^verbatim>\<open>
    file_path = os.path.join(local_directory, file_name)
    if not os.path.exists(file_path) or not os.path.isfile(file_path):
        raise OSError('Does not exist {}'.format(file_path))

    makedirs(ftp_client, ftp_directory)
    ftp_client.cwd(ftp_directory)

    out_name = file_name
    if not rename_existing:
        out_name = get_unique_file_name_if_exists(ftp_client, file_name)
    with open(file_path, 'rb') as file:
        ftp_client.storbinary('STOR {}'.format(out_name), file)
    return os.path.join(out_name)
  \<close>
  \<open>upload_file_body\<close> is the function as written, \<open>upload_file\<close> the function the decorator
  \<open>@retry\<close> makes of it. \<open>os.path.join\<close> of one argument is that argument.
\<close>

definition upload_file_body ::
  "string \<Rightarrow> string \<Rightarrow> string \<Rightarrow> bool \<Rightarrow> 'u world \<Rightarrow> ((exn + string) \<times> 'u world) option" where
  "upload_file_body local_directory file_name ftp_directory rename_existing w =
     (let file_path = path_join local_directory file_name in
      if \<not> path_exists w file_path \<or> \<not> path_isfile w file_path
      then Some (Inl (OSError (''Does not exist '' @ file_path)), w)
      else
        (case makedirs ftp_directory ''/'' w of
           (Inl e, w1) \<Rightarrow> Some (Inl e, w1)
         | (Inr u, w1) \<Rightarrow>
        (case cwd ftp_directory w1 of
           (Inl e, w2) \<Rightarrow> Some (Inl e, w2)
         | (Inr u, w2) \<Rightarrow>
        (case (if \<not> rename_existing then get_unique_file_name_if_exists file_name [] w2
               else Some (Inr file_name, w2)) of
           None \<Rightarrow> None
         | Some (Inl e, w3) \<Rightarrow> Some (Inl e, w3)
         | Some (Inr out_name, w3) \<Rightarrow>
        (case open_file file_path ''rb'' w3 of
           (Inl e, w4) \<Rightarrow> Some (Inl e, w4)
         | (Inr file, w4) \<Rightarrow>
        (case storbinary (''STOR '' @ out_name) file w4 of
           (Inl e, w5) \<Rightarrow> Some (Inl e, file_close file w5)
         | (Inr u, w5) \<Rightarrow> Some (Inr out_name, file_close file w5)))))))"

definition upload_file ::
  "string \<Rightarrow> string \<Rightarrow> string \<Rightarrow> bool \<Rightarrow> 'u world \<Rightarrow>
   ((exn + string) \<times> 'u world \<times> retry_state) option" where
  "upload_file local_directory file_name ftp_directory rename_existing =
     retry (upload_file_body local_directory file_name ftp_directory rename_existing)"

subsection \<open>\_download\<close>

text \<open>
  \<^verbatim>\<open>
    file = None
    if not download_handler:
        file = open(local_file_path, 'wb')
        download_handler = file.write

    ftp_client.retrbinary('RETR {}'.format(ftp_file_path), download_handler)

    if file:
        file.close()
  \<close>
\<close>

definition private_download ::
  "string \<Rightarrow> string \<Rightarrow> 'u handler option \<Rightarrow> 'u world \<Rightarrow> (exn + unit) \<times> 'u world" where
  "private_download local_file_path ftp_file_path download_handler =
     thn (\<lambda>w. case download_handler of
                 Some handler \<Rightarrow>
                   if \<not> handler_truth handler (user w) then
                     thn (open_file local_file_path ''wb'')
                       (\<lambda>file w. (Inr (Some file, file_write file), w)) w
                   else (Inr (None, call_handler (handler_call handler)), w)
               | None \<Rightarrow>
                   thn (open_file local_file_path ''wb'')
                     (\<lambda>file w. (Inr (Some file, file_write file), w)) w)
       (\<lambda>(file, sink).
     thn (retrbinary (''RETR '' @ ftp_file_path) sink) (\<lambda>u w.
       (case file of None \<Rightarrow> (Inr (), w) | Some fp \<Rightarrow> (Inr (), file_close fp w))))"

subsection \<open>download\_file\<close>

text \<open>
  \<^verbatim>\<open>
    @retry
    def download_file(ftp_client, local_file_path, ftp_file_path, download_handler=None):
        return _download(ftp_client, local_file_path=local_file_path,
                         ftp_file_path=ftp_file_path, download_handler=download_handler)
  \<close>
\<close>

definition download_file ::
  "string \<Rightarrow> string \<Rightarrow> 'u handler option \<Rightarrow> 'u world \<Rightarrow>
   ((exn + unit) \<times> 'u world \<times> retry_state) option" where
  "download_file local_file_path ftp_file_path download_handler =
     retry (\<lambda>w. Some (private_download local_file_path ftp_file_path download_handler w))"

section \<open>Worlds for the examples\<close>

text \<open>
  Two handlers that collect what they are given: a plain function that writes to a
  buffer, as the handler of the repository's download test does, and a callable list
  that appends to itself and so, as every list, is false while it is empty. Then a
  world with an empty server, one local file and no faults; the same world with a local
  directory; the same world with two files in the root directory of the server; and the
  same world with a server that answers every command with a temporary error.
\<close>

definition collect :: "bytes handler" where
  "collect =
     \<lparr>handler_truth = (\<lambda>received. True),
      handler_call = (\<lambda>chunk received. Inr (received @ chunk))\<rparr>"

definition list_collector :: "bytes handler" where
  "list_collector =
     \<lparr>handler_truth = (\<lambda>received. received \<noteq> []),
      handler_call = (\<lambda>chunk received. Inr (received @ chunk))\<rparr>"

text \<open>A body of a \<open>with\<close> statement that raises at once.\<close>

definition raising :: "exn \<Rightarrow> 'u world \<Rightarrow> ((exn + unit) \<times> 'u world) option" where
  "raising e w = Some (Inl e, w)"

definition sample_world :: "bytes world" where
  "sample_world =
     \<lparr>pwd = [], dirs = [], files = [], closed = False,
      local_fs = [''test/data/sample.txt'' \<mapsto> RegularFile ''data''],
      open_files = [], trace = [], faults = (\<lambda>n. None), user = []\<rparr>"

definition directory_world :: "bytes world" where
  "directory_world = sample_world\<lparr>local_fs := (local_fs sample_world)(''test/data'' \<mapsto> Directory)\<rparr>"

definition crowded_world :: "bytes world" where
  "crowded_world =
     sample_world\<lparr>files := [([''sample.txt''], ''first''), ([''sample-1.txt''], ''second'')]\<rparr>"

text \<open>
  The worlds after one, two and three uploads of the local file to \<open>test/data/\<close> with
  \<open>rename_existing\<close> false, and after as many with \<open>rename_existing\<close> true.
\<close>

definition upload_calls :: "bool \<Rightarrow> string \<Rightarrow> event list" where
  "upload_calls rename_existing out_name =
     [Cwd ''/'', Mkd ''test'', Cwd ''test'', Mkd ''data'', Cwd ''data'', Cwd ''/'',
      Cwd ''test/data/''] @
     (if rename_existing then [] else [Nlst []]) @
     [OpenFile ''test/data/sample.txt'' ''rb'', Storbinary (''STOR '' @ out_name),
      CloseFile ''test/data/sample.txt'']"

definition uploaded_world :: "bool \<Rightarrow> string list \<Rightarrow> bytes world" where
  "uploaded_world rename_existing out_names =
     sample_world\<lparr>pwd := [''test'', ''data''],
        dirs := [[''test'', ''data''], [''test'']],
        files := map (\<lambda>n. ([''test'', ''data'', n], ''data'')) (remdups out_names),
        trace := concat (map (upload_calls rename_existing) out_names)\<rparr>"

text \<open>
  The world after the first of these uploads, on a server that answers \<open>MKD\<close> of a
  directory that exists with the error 550: the calls number 12, 14 and 16 are the
  \<open>MKD test\<close> of the three attempts of the next upload.
\<close>

definition existing_directory_world :: "bytes world" where
  "existing_directory_world =
     (uploaded_world False [''sample.txt''])
       \<lparr>faults := (\<lambda>n. if n = 12 \<or> n = 14 \<or> n = 16 then Some (FtpError ''550'') else None)\<rparr>"

definition refusing_world :: "bytes world" where
  "refusing_world = sample_world\<lparr>faults := (\<lambda>n. Some (FtpError ''421''))\<rparr>"

section \<open>The retry policy: three attempts, then RetryError\<close>

lemma retry_unfold:
  "retry fn s0 =
     (case fn s0 of
        None \<Rightarrow> None
      | Some (out1, s1) \<Rightarrow>
          if \<not> retry_if_exception_type ftplib_all_errors out1
          then Some (out1, s1, \<lparr>attempt_number = 1, idle_for = 0\<rparr>)
          else
            (case fn s1 of
               None \<Rightarrow> None
             | Some (out2, s2) \<Rightarrow>
                 if \<not> retry_if_exception_type ftplib_all_errors out2
                 then Some (out2, s2, \<lparr>attempt_number = 2, idle_for = 5\<rparr>)
                 else
                   (case fn s2 of
                      None \<Rightarrow> None
                    | Some (out3, s3) \<Rightarrow>
                        if \<not> retry_if_exception_type ftplib_all_errors out3
                        then Some (out3, s3, \<lparr>attempt_number = 3, idle_for = 10\<rparr>)
                        else
                          (case out3 of
                             Inl e \<Rightarrow> Some (Inl (RetryError e), s3, \<lparr>attempt_number = 3, idle_for = 10\<rparr>)
                           | Inr v \<Rightarrow> Some (Inl (RetryError (OtherError ''result'')), s3,
                                          \<lparr>attempt_number = 3, idle_for = 10\<rparr>)))))"
  unfolding retry_def
  apply (subst retrying.simps)
  apply (subst retrying.simps)
  apply (subst retrying.simps)
  apply (simp add: stop_after_attempt_def wait_fixed_def split: option.splits prod.splits sum.splits)
  done

text \<open>
  C3, as amended. An attempt that raises one of \<open>ftplib.all_errors\<close> is followed by another
  attempt of the whole function, from the state the failed attempt left; there are at
  most three attempts, with a wait of 5 before each attempt but the first; and when the
  third attempt raises such an error as well, the caller gets a \<open>RetryError\<close> that carries
  that last error, not the error itself.
\<close>

theorem retry_reattempts_then_retry_error:
  "(fn s0 = Some (Inl e1, s1) \<and> ftplib_all_errors e1 \<and> fn s1 = Some (Inr v, s2) \<longrightarrow>
      retry fn s0 = Some (Inr v, s2, \<lparr>attempt_number = 2, idle_for = 5\<rparr>)) \<and>
   (fn s0 = Some (Inl e1, s1) \<and> ftplib_all_errors e1 \<and>
    fn s1 = Some (Inl e2, s2) \<and> ftplib_all_errors e2 \<and>
    fn s2 = Some (Inl e3, s3) \<and> ftplib_all_errors e3 \<longrightarrow>
      retry fn s0 = Some (Inl (RetryError e3), s3, \<lparr>attempt_number = 3, idle_for = 10\<rparr>)) \<and>
   (retry fn s0 = Some (out, s', rs) \<longrightarrow>
      1 \<le> attempt_number rs \<and> attempt_number rs \<le> 3 \<and>
      idle_for rs = 5 * (attempt_number rs - 1))"
  apply (intro conjI impI)
    apply (simp add: retry_unfold retry_if_exception_type_def)
   apply (simp add: retry_unfold retry_if_exception_type_def)
  apply (auto simp: retry_unfold split: option.splits prod.splits if_splits sum.splits)
  done

theorem retry_reattempts_then_retry_error_witness:
  "download_file [] ''sample.txt'' (Some collect) refusing_world =
     Some (Inl (RetryError (FtpError ''421'')),
           refusing_world\<lparr>trace := [Retrbinary ''RETR sample.txt'', Retrbinary ''RETR sample.txt'',
                                     Retrbinary ''RETR sample.txt'']\<rparr>,
           \<lparr>attempt_number = 3, idle_for = 10\<rparr>)"
  using retry_reattempts_then_retry_error
    [where fn = "\<lambda>w. Some (private_download [] ''sample.txt'' (Some collect) w)"
       and ?s0.0 = refusing_world and ?e1.0 = "FtpError ''421''"
       and ?s1.0 = "refusing_world\<lparr>trace := [Retrbinary ''RETR sample.txt'']\<rparr>"
       and ?e2.0 = "FtpError ''421''"
       and ?s2.0 = "refusing_world\<lparr>trace := [Retrbinary ''RETR sample.txt'',
                                                Retrbinary ''RETR sample.txt'']\<rparr>"
       and ?e3.0 = "FtpError ''421''"
       and ?s3.0 = "refusing_world\<lparr>trace := [Retrbinary ''RETR sample.txt'',
                      Retrbinary ''RETR sample.txt'', Retrbinary ''RETR sample.txt'']\<rparr>"]
  by (simp add: download_file_def private_download_def thn_def retrbinary_def call_def
      collect_def refusing_world_def sample_world_def)

text \<open>
  C3 as stated fails: when every attempt of a download ends in the error 421 of the
  server, the caller does not get that error but a \<open>RetryError\<close>.
\<close>

theorem retry_last_error_itself_counterexample:
  "map_option fst (download_file [] ''sample.txt'' (Some collect) refusing_world)
     = Some (Inl (RetryError (FtpError ''421''))) \<and>
   map_option fst (download_file [] ''sample.txt'' (Some collect) refusing_world)
     \<noteq> Some (Inl (FtpError ''421''))"
  by (simp add: download_file_def retry_unfold retry_if_exception_type_def private_download_def
      thn_def retrbinary_def call_def collect_def refusing_world_def sample_world_def)

section \<open>upload\_file when the local file is missing\<close>

lemma upload_file_body_missing:
  "\<not> (path_exists w (path_join ld fn) \<and> path_isfile w (path_join ld fn)) \<Longrightarrow>
   upload_file_body ld fn dir re w = Some (Inl (OSError (''Does not exist '' @ path_join ld fn)), w)"
  by (auto simp: upload_file_body_def Let_def)

text \<open>
  C2. The exception raised for a missing local file is an \<open>OSError\<close>, and \<open>OSError\<close> is one
  of \<open>ftplib.all_errors\<close>: the retry policy runs the function three times, waits twice,
  and raises a \<open>RetryError\<close>.
\<close>

theorem upload_file_missing_local_file_is_retried:
  "upload_file ''test/data'' ''missing.txt'' ''test/data/'' False sample_world =
     Some (Inl (RetryError (OSError ''Does not exist test/data/missing.txt'')), sample_world,
           \<lparr>attempt_number = 3, idle_for = 10\<rparr>)"
  by (simp add: upload_file_def retry_unfold retry_if_exception_type_def upload_file_body_def
      path_exists_def path_isfile_def path_join_def sample_world_def)

text \<open>
  When the joined local path does not exist or is not a regular file, the function as
  written raises \<open>OSError\<close> and leaves the world as it was: nothing is added to the trace,
  so no method of the FTP client was called, and the directories, the files and the
  working directory of the server are the same. The decorated function leaves the world
  as it was too, after three such attempts, and raises \<open>RetryError\<close>.
\<close>

lemma upload_file_missing_local_file_no_remote_effect:
  "\<not> (path_exists w (path_join ld fn) \<and> path_isfile w (path_join ld fn)) \<Longrightarrow>
   upload_file_body ld fn dir re w =
     Some (Inl (OSError (''Does not exist '' @ path_join ld fn)), w) \<and>
   upload_file ld fn dir re w =
     Some (Inl (RetryError (OSError (''Does not exist '' @ path_join ld fn))), w,
           \<lparr>attempt_number = 3, idle_for = 10\<rparr>)"
  by (simp add: upload_file_body_missing upload_file_def retry_unfold retry_if_exception_type_def)

lemma upload_file_missing_local_file_no_remote_effect_example:
  "\<not> (path_exists sample_world ''test/data/missing.txt'' \<and>
      path_isfile sample_world ''test/data/missing.txt'') \<and>
   upload_file_body ''test/data'' ''missing.txt'' ''test/data/'' False sample_world =
     Some (Inl (OSError ''Does not exist test/data/missing.txt''), sample_world)"
  using upload_file_missing_local_file_no_remote_effect
    [of sample_world "''test/data''" "''missing.txt''" "''test/data/''" False]
  by (simp add: path_exists_def path_isfile_def path_join_def sample_world_def)

text \<open>
  C4. For a local path that is not a regular file, \<open>upload_file\<close> is to raise a local
  precondition error and to have no remote effect. There is no remote effect, but the
  error the caller gets is not the local precondition error: that one, an \<open>OSError\<close>, is
  raised by each of three attempts, as in C2, and the caller gets a \<open>RetryError\<close> after
  two waits. Here the joined local path \<open>test/data\<close> is a directory.
\<close>

theorem upload_file_not_a_regular_file_raises_retry_error:
  "local_fs directory_world (path_join ''test'' ''data'') = Some Directory \<and>
   upload_file ''test'' ''data'' ''test/data/'' False directory_world =
     Some (Inl (RetryError (OSError ''Does not exist test/data'')), directory_world,
           \<lparr>attempt_number = 3, idle_for = 10\<rparr>)"
  by (simp add: upload_file_def retry_unfold retry_if_exception_type_def upload_file_body_def
      Let_def path_exists_def path_isfile_def path_join_def directory_world_def sample_world_def)

section \<open>The unique name\<close>

lemma of_char_digit_char: "d < 10 \<Longrightarrow> (of_char (digit_char d) :: nat) = 48 + d"
  by (simp add: digit_char_def)

lemma digits_val_str_nat: "digits_val (str_nat n) = n"
proof (induction n rule: str_nat.induct)
  case (1 n)
  show ?case
  proof (cases "n < 10")
    case True
    then show ?thesis by (simp add: of_char_digit_char)
  next
    case False
    with 1 have "digits_val (str_nat (n div 10)) = n div 10" by simp
    with False show ?thesis
      by (subst str_nat.simps) (simp add: of_char_digit_char del: str_nat.simps)
  qed
qed

lemma str_nat_inj: "str_nat m = str_nat n \<Longrightarrow> m = n"
  by (metis digits_val_str_nat)

lemma str_int_inj: "0 \<le> i \<Longrightarrow> 0 \<le> j \<Longrightarrow> str_int i = str_int j \<Longrightarrow> i = j"
  by (auto simp: str_int_def dest!: str_nat_inj simp del: str_nat.simps)

lemma numbered_name_inj:
  "0 \<le> i \<Longrightarrow> 0 \<le> j \<Longrightarrow> numbered_name n i = numbered_name n j \<Longrightarrow> i = j"
proof -
  assume nn: "0 \<le> i" "0 \<le> j" and eq: "numbered_name n i = numbered_name n j"
  obtain root ext where "splitext n = (root, ext)" by (cases "splitext n")
  with eq have "str_int i = str_int j" by (simp add: numbered_name_def)
  with nn show "i = j" by (rule str_int_inj)
qed

lemma numbered_name_escapes:
  assumes "finite names" and that: "0 \<le> (s::int)"
  shows "\<exists>k\<ge>s. numbered_name n k \<notin> names"
proof (rule ccontr)
  assume "\<not> ?thesis"
  then have sub: "numbered_name n ` {s..} \<subseteq> names" by auto
  have "inj_on (numbered_name n) {s..}"
  proof (rule inj_onI)
    fix x y assume "x \<in> {s..}" "y \<in> {s..}" "numbered_name n x = numbered_name n y"
    with that show "x = y" by (intro numbered_name_inj [of x y n]) auto
  qed
  then have "finite {s..}"
    using sub assms by (meson finite_imageD finite_subset)
  then show False
    by (simp add: infinite_Ici)
qed

lemma unique_name_loop_run:
  "s \<le> k \<Longrightarrow> newname \<in> names \<Longrightarrow> \<forall>j. s \<le> j \<and> j < k \<longrightarrow> numbered_name n j \<in> names \<Longrightarrow>
   numbered_name n k \<notin> names \<Longrightarrow>
   unique_name_loop names n s newname = Some (numbered_name n k)"
proof (induction "nat (k - s)" arbitrary: s newname)
  case 0
  then have "s = k" by simp
  have "unique_name_loop names n (k + 1) (numbered_name n k) = Some (numbered_name n k)"
    using 0(5) by (subst unique_name_loop.simps) simp
  with 0(3) \<open>s = k\<close> show ?case
    by (subst unique_name_loop.simps) simp
next
  case (Suc d)
  then have lt: "s < k" and d: "d = nat (k - (s + 1))" by auto
  have "unique_name_loop names n (s + 1) (numbered_name n s) = Some (numbered_name n k)"
    using Suc.hyps(1) [OF d] Suc.prems lt by auto
  with Suc.prems(2) show ?case
    by (subst unique_name_loop.simps) simp
qed

lemma least_free_suffix:
  assumes "finite names" "0 \<le> s"
  shows "\<exists>k\<ge>s. numbered_name n k \<notin> names \<and> (\<forall>j. s \<le> j \<and> j < k \<longrightarrow> numbered_name n j \<in> names)"
proof -
  obtain k0 where k0: "k0 \<ge> s" "numbered_name n k0 \<notin> names"
    using numbered_name_escapes [OF assms(1), of s n] assms(2) by blast
  define P where "P d \<longleftrightarrow> numbered_name n (s + int d) \<notin> names" for d
  have "P (nat (k0 - s))" using k0 by (simp add: P_def)
  then obtain m where L: "P m" and M: "\<And>d. d < m \<Longrightarrow> \<not> P d"
    by (metis LeastI not_less_Least)
  have later: "numbered_name n j \<in> names" if "s \<le> j" "j < s + int m" for j
  proof -
    have "nat (j - s) < m" using that by linarith
    then have "\<not> P (nat (j - s))" by (rule M)
    moreover have "s + int (nat (j - s)) = j" using that by simp
    ultimately show ?thesis by (simp add: P_def)
  qed
  have "s \<le> s + int m" by simp
  moreover have "numbered_name n (s + int m) \<notin> names" using L by (simp add: P_def)
  ultimately show ?thesis using later by blast
qed


lemma unique_name_loop_result:
  assumes "finite names"
  shows "\<exists>newname. unique_name_loop names n 1 n = Some newname \<and> newname \<notin> names \<and>
           (n \<notin> names \<longrightarrow> newname = n) \<and>
           (n \<in> names \<longrightarrow>
              (\<exists>k\<ge>1. newname = numbered_name n k \<and>
                 (\<forall>j. 1 \<le> j \<and> j < k \<longrightarrow> numbered_name n j \<in> names)))"
proof (cases "n \<in> names")
  case False
  then have "unique_name_loop names n 1 n = Some n"
    by (subst unique_name_loop.simps) simp
  with False show ?thesis by simp
next
  case True
  obtain k where k: "1 \<le> k" "numbered_name n k \<notin> names"
    "\<forall>j. 1 \<le> j \<and> j < k \<longrightarrow> numbered_name n j \<in> names"
    using least_free_suffix [OF assms, of 1 n] by auto
  from unique_name_loop_run [OF k(1) True k(3) k(2)]
  have "unique_name_loop names n 1 n = Some (numbered_name n k)" .
  with True k show ?thesis by auto
qed

text \<open>
  C1. When the listing of the directory is \<open>names\<close>, the function returns a name that is
  not listed: the file name itself when it is not listed, and otherwise
  \<open>root-k.ext\<close>, where \<open>(root, ext)\<close> is \<open>os.path.splitext\<close> of the file name, for the
  least \<open>k \<ge> 1\<close> whose name of that form is not listed.
\<close>

theorem get_unique_file_name_if_exists_correct:
  "list_files directory w = (Inr names, w') \<Longrightarrow>
   \<exists>newname. get_unique_file_name_if_exists file_name directory w = Some (Inr newname, w') \<and>
     newname \<notin> set names \<and>
     (file_name \<notin> set names \<longrightarrow> newname = file_name) \<and>
     (file_name \<in> set names \<longrightarrow>
        (\<exists>k\<ge>1. newname = fst (splitext file_name) @ ''-'' @ str_int k @ snd (splitext file_name) \<and>
           (\<forall>j. 1 \<le> j \<and> j < k \<longrightarrow>
              fst (splitext file_name) @ ''-'' @ str_int j @ snd (splitext file_name) \<in> set names)))"
proof -
  assume l: "list_files directory w = (Inr names, w')"
  have nn: "numbered_name file_name k = fst (splitext file_name) @ ''-'' @ str_int k @ snd (splitext file_name)" for k
    by (simp add: numbered_name_def split: prod.splits)
  obtain newname where r: "unique_name_loop (set names) file_name 1 file_name = Some newname"
    "newname \<notin> set names" "file_name \<notin> set names \<longrightarrow> newname = file_name"
    "file_name \<in> set names \<longrightarrow>
              (\<exists>k\<ge>1. newname = numbered_name file_name k \<and>
                 (\<forall>j. 1 \<le> j \<and> j < k \<longrightarrow> numbered_name file_name j \<in> set names))"
    using unique_name_loop_result [of "set names" file_name] by auto
  have "get_unique_file_name_if_exists file_name directory w = Some (Inr newname, w')"
    using l r(1) by (simp add: get_unique_file_name_if_exists_def)
  with r(2-4) show ?thesis unfolding nn by blast
qed

theorem get_unique_file_name_if_exists_correct_witness:
  "list_files [] crowded_world =
     (Inr [''sample.txt'', ''sample-1.txt''], crowded_world\<lparr>trace := [Nlst []]\<rparr>) \<and>
   get_unique_file_name_if_exists ''sample.txt'' [] crowded_world =
     Some (Inr ''sample-2.txt'', crowded_world\<lparr>trace := [Nlst []]\<rparr>) \<and>
   (\<exists>newname. get_unique_file_name_if_exists ''sample.txt'' [] crowded_world =
       Some (Inr newname, crowded_world\<lparr>trace := [Nlst []]\<rparr>) \<and>
     newname \<notin> set [''sample.txt'', ''sample-1.txt''])"
proof -
  have l: "list_files [] crowded_world =
     (Inr [''sample.txt'', ''sample-1.txt''], crowded_world\<lparr>trace := [Nlst []]\<rparr>)"
    by (simp add: list_files_def nlst_def call_def entries_def resolve_def split_def enter_def
        crowded_world_def sample_world_def)
  have s: "splitext ''sample.txt'' = (''sample'', ''.txt'')"
    by (simp add: splitext_def rfind_def)
  have n1: "str_int 1 = ''1''" by code_simp
  have n2: "str_int 2 = ''2''" by code_simp
  have "unique_name_loop (set [''sample.txt'', ''sample-1.txt'']) ''sample.txt'' 1 ''sample.txt''
          = Some ''sample-2.txt''"
    apply (subst unique_name_loop.simps)
    apply (subst unique_name_loop.simps)
    apply (subst unique_name_loop.simps)
    apply (simp add: numbered_name_def s n1 n2)
    done
  then have v: "get_unique_file_name_if_exists ''sample.txt'' [] crowded_world =
     Some (Inr ''sample-2.txt'', crowded_world\<lparr>trace := [Nlst []]\<rparr>)"
    by (simp add: get_unique_file_name_if_exists_def l)
  from get_unique_file_name_if_exists_correct [OF l, of "''sample.txt''"] l v show ?thesis by blast
qed

text \<open>
  C10. The function returns or raises, it never runs forever: the loop ends for every
  file name and every listing, because the names it tries, \<open>root-k.ext\<close> for
  \<open>k = 1, 2, \<dots>\<close>, are pairwise different, so that one of them is outside the finite
  listing.
\<close>

theorem get_unique_file_name_if_exists_terminates:
  "(\<exists>out. get_unique_file_name_if_exists file_name directory w = Some out) \<and>
   (\<exists>newname. unique_name_loop (set names) file_name 1 file_name = Some newname) \<and>
   (\<forall>j k. 1 \<le> j \<and> j < k \<longrightarrow> numbered_name file_name j \<noteq> numbered_name file_name k) \<and>
   (\<exists>k\<ge>1. numbered_name file_name k \<notin> set names)"
proof (intro conjI)
  show "\<exists>out. get_unique_file_name_if_exists file_name directory w = Some out"
  proof (cases "list_files directory w")
    case (Pair r w')
    show ?thesis
    proof (cases r)
      case (Inl e)
      with Pair show ?thesis by (simp add: get_unique_file_name_if_exists_def)
    next
      case (Inr ns)
      obtain newname where "unique_name_loop (set ns) file_name 1 file_name = Some newname"
        using unique_name_loop_result [of "set ns" file_name] by auto
      with Pair Inr show ?thesis by (simp add: get_unique_file_name_if_exists_def)
    qed
  qed
  show "\<exists>newname. unique_name_loop (set names) file_name 1 file_name = Some newname"
    using unique_name_loop_result [of "set names" file_name] by auto
  show "\<forall>j k. 1 \<le> j \<and> j < k \<longrightarrow> numbered_name file_name j \<noteq> numbered_name file_name k"
  proof (intro allI impI)
    fix j k :: int assume "1 \<le> j \<and> j < k"
    then show "numbered_name file_name j \<noteq> numbered_name file_name k"
      using numbered_name_inj [of j k file_name] by auto
  qed
  show "\<exists>k\<ge>1. numbered_name file_name k \<notin> set names"
    using numbered_name_escapes [of "set names" 1 file_name] by simp
qed


theorem get_unique_file_name_if_exists_terminates_witness:
  "(\<exists>out. get_unique_file_name_if_exists ''sample.txt'' [] crowded_world = Some out) \<and>
   numbered_name ''sample.txt'' 1 \<noteq> numbered_name ''sample.txt'' 2"
  using get_unique_file_name_if_exists_terminates
    [of "''sample.txt''" "[]" crowded_world "[''sample.txt'', ''sample-1.txt'']"]
  by auto


section \<open>makedirs\<close>

lemma call_ok:
  "call ev run w = (Inr v, w') \<Longrightarrow>
   faults w (length (trace w)) = None \<and> run (w\<lparr>trace := trace w @ [ev]\<rparr>) = (Inr v, w')"
  by (simp add: call_def Let_def split: option.splits)

lemma cwd_ok:
  "cwd d w = (Inr u, w') \<Longrightarrow> w' = w\<lparr>trace := trace w @ [Cwd d], pwd := resolve (pwd w) d\<rparr>"
  unfolding cwd_def by (drule call_ok) auto

lemma mkd_ok:
  "mkd d w = (Inr u, w') \<Longrightarrow>
   w' = w\<lparr>trace := trace w @ [Mkd d], dirs := List.insert (resolve (pwd w) d) (dirs w)\<rparr>"
  unfolding mkd_def by (drule call_ok) auto

lemma thn_ok:
  "thn m f s = (Inr b, s'') \<Longrightarrow> \<exists>a s'. m s = (Inr a, s') \<and> f a s' = (Inr b, s'')"
  by (auto simp: thn_def split: prod.splits sum.splits)

lemma mkd_cwd_ok:
  assumes "thn (mkd d) (\<lambda>u. cwd d) w = (Inr u, w')"
  shows "w' = w\<lparr>trace := trace w @ [Mkd d, Cwd d],
                 dirs := List.insert (resolve (pwd w) d) (dirs w),
                 pwd := resolve (pwd w) d\<rparr>"
proof -
  from thn_ok [OF assms] obtain a w1 where m: "mkd d w = (Inr a, w1)" and c: "cwd d w1 = (Inr u, w')"
    by blast
  from mkd_ok [OF m] cwd_ok [OF c] show ?thesis by simp
qed

lemma walk_ok:
  "for_each (\<lambda>subpath. thn (mkd subpath) (\<lambda>u. cwd subpath)) segs w = (Inr u, w') \<Longrightarrow>
   w' = w\<lparr>trace := trace w @ concat (map (\<lambda>seg. [Mkd seg, Cwd seg]) segs),
          dirs := fold List.insert (descend (pwd w) segs) (dirs w),
          pwd := foldl resolve (pwd w) segs\<rparr>"
proof (induction segs arbitrary: w)
  case Nil
  then show ?case by simp
next
  case (Cons seg segs)
  from Cons.prems obtain a w1 where
    s: "thn (mkd seg) (\<lambda>u. cwd seg) w = (Inr a, w1)" and
    r: "for_each (\<lambda>subpath. thn (mkd subpath) (\<lambda>u. cwd subpath)) segs w1 = (Inr u, w')"
    by (auto split: prod.splits sum.splits)
  from mkd_cwd_ok [OF s] Cons.IH [OF r] show ?case by simp
qed

lemma makedirs_ok:
  assumes "makedirs path base w = (Inr u, w')"
  shows "w' = w\<lparr>trace := trace w @ [Cwd base] @
                    concat (map (\<lambda>seg. [Mkd seg, Cwd seg]) (subpaths path)) @ [Cwd base],
                 dirs := fold List.insert (descend (resolve (pwd w) base) (subpaths path)) (dirs w),
                 pwd := resolve (foldl resolve (resolve (pwd w) base) (subpaths path)) base\<rparr>"
proof -
  from assms obtain a w1 b w2 where
    1: "cwd base w = (Inr a, w1)" and
    2: "for_each (\<lambda>subpath. thn (mkd subpath) (\<lambda>u. cwd subpath)) (subpaths path) w1 = (Inr b, w2)" and
    3: "cwd base w2 = (Inr u, w')"
    unfolding makedirs_def by (blast dest: thn_ok)
  from cwd_ok [OF 1] walk_ok [OF 2] cwd_ok [OF 3] show ?thesis by simp
qed

lemma resolve_absolute: "take 1 p = ''/'' \<Longrightarrow> resolve cur p = resolve [] p"
  by (simp add: resolve_def)

text \<open>
  For a base directory that starts with a slash: when \<open>makedirs\<close> returns normally the
  working directory of the connection is the base directory; the calls made are the
  change to the base directory, then for each segment of the path, in order, the
  creation of the segment and the change into it, then the change to the base
  directory; and the directories created are the ones the walk from the base directory
  through the segments passes, each resolved in the one before it. For the path
  \<open>test/data/\<close> and the base \<open>/\<close> these are \<open>test\<close> and \<open>data\<close> inside it, and the
  connection ends at \<open>/\<close>.
\<close>

lemma makedirs_returns_to_absolute_base:
  "take 1 base_directory = ''/'' \<Longrightarrow> makedirs path base_directory w = (Inr u, w') \<Longrightarrow>
   pwd w' = resolve [] base_directory \<and>
   trace w' = trace w @ [Cwd base_directory] @
                concat (map (\<lambda>subpath. [Mkd subpath, Cwd subpath]) (subpaths path)) @
                [Cwd base_directory] \<and>
   dirs w' = fold List.insert (descend (resolve [] base_directory) (subpaths path)) (dirs w)"
proof -
  assume a: "take 1 base_directory = ''/''" and m: "makedirs path base_directory w = (Inr u, w')"
  have r: "resolve cur base_directory = resolve [] base_directory" for cur
    using a by (rule resolve_absolute)
  from makedirs_ok [OF m] show ?thesis
    by (simp add: r [of "pwd w"]
        r [of "foldl resolve (resolve [] base_directory) (subpaths path)"])
qed

lemma makedirs_returns_to_absolute_base_example:
  "take 1 ''/'' = ''/'' \<and>
   makedirs ''test/data/'' ''/'' sample_world =
     (Inr (), sample_world\<lparr>pwd := [], dirs := [[''test'', ''data''], [''test'']],
        trace := [Cwd ''/'', Mkd ''test'', Cwd ''test'', Mkd ''data'', Cwd ''data'', Cwd ''/'']\<rparr>) \<and>
   resolve [] ''/'' = []"
  using makedirs_returns_to_absolute_base [of "''/''" "''test/data/''" sample_world "()"
       "sample_world\<lparr>pwd := [], dirs := [[''test'', ''data''], [''test'']],
        trace := [Cwd ''/'', Mkd ''test'', Cwd ''test'', Mkd ''data'', Cwd ''data'', Cwd ''/'']\<rparr>"]
  by (simp add: makedirs_def thn_def cwd_def mkd_def call_def subpaths_def strip_def split_def
       resolve_def enter_def sample_world_def)

text \<open>
  C5. After \<open>makedirs\<close> the connection is to be in the base directory, not in the new
  leaf, and each segment is to be created inside the one before it. The last call,
  \<open>cwd(base_directory)\<close>, is resolved by the server from the directory the connection is
  in by then: with the base \<open>''\<close>, the directory the connection is in when \<open>makedirs\<close> is
  called, the function returns normally and leaves the connection in the new directory
  \<open>a\<close>. And a segment \<open>..\<close> is not created inside the one before it: for the path
  \<open>a/../b\<close> the directory \<open>b\<close> is created beside \<open>a\<close>.
\<close>

theorem makedirs_relative_base_ends_in_leaf:
  "fst (makedirs ''a'' [] sample_world) = Inr () \<and>
   pwd (snd (makedirs ''a'' [] sample_world)) = [''a''] \<and>
   resolve (pwd sample_world) [] = [] \<and>
   fst (makedirs ''a/../b'' ''/'' sample_world) = Inr () \<and>
   dirs (snd (makedirs ''a/../b'' ''/'' sample_world)) = [[''b''], [], [''a'']]"
  by (simp add: makedirs_def thn_def cwd_def mkd_def call_def subpaths_def strip_def split_def
       resolve_def enter_def sample_world_def)

text \<open>
  C6. The segments are those of \<open>path.strip('/').split('/')\<close>, empty ones included: two
  slashes in a row inside the path, and the empty path, make \<open>makedirs\<close> call \<open>mkd('')\<close>
  and \<open>cwd('')\<close>.
\<close>

theorem makedirs_tries_empty_segments:
  "trace (snd (makedirs ''a//b'' ''/'' sample_world)) =
     [Cwd ''/'', Mkd ''a'', Cwd ''a'', Mkd [], Cwd [], Mkd ''b'', Cwd ''b'', Cwd ''/''] \<and>
   trace (snd (makedirs [] ''/'' sample_world)) = [Cwd ''/'', Mkd [], Cwd [], Cwd ''/'']"
  by (simp add: makedirs_def thn_def cwd_def mkd_def call_def subpaths_def strip_def split_def
       resolve_def enter_def sample_world_def)


section \<open>FTPLogErrors\<close>

text \<open>
  What the statement does, whatever the body: when the body ends the connection is
  closed, \<open>close\<close> being the last call on the trace; an exception of the body is raised
  again by the statement, \<open>__exit__\<close> never asks for it to be suppressed; and the
  exception is logged, before the connection is closed, when its truth value is true.
\<close>

lemma with_FTPLogErrors_effect:
  "(body w = Some (Inr v, w1) \<longrightarrow>
      with_FTPLogErrors body w =
        Some (Inr (Some v), w1\<lparr>closed := True, trace := trace w1 @ [Close]\<rparr>)) \<and>
   (body w = Some (Inl e, w1) \<longrightarrow>
      with_FTPLogErrors body w =
        Some (Inl e, w1\<lparr>closed := True,
                        trace := trace w1 @ (if truth_value e then [LogError e] else []) @ [Close]\<rparr>)) \<and>
   \<not> fst (FTPLogErrors_exit exc_val w1) \<and> closed (snd (FTPLogErrors_exit exc_val w1))"
  by (simp add: with_FTPLogErrors_def FTPLogErrors_exit_def close_def logger_error_def
      split: option.splits)

lemma with_FTPLogErrors_effect_example:
  "with_FTPLogErrors (\<lambda>w. Some (cwd ''/'' w)) sample_world =
     Some (Inr (Some ()), sample_world\<lparr>closed := True, trace := [Cwd ''/'', Close]\<rparr>) \<and>
   with_FTPLogErrors (\<lambda>w. Some (cwd ''/'' w)) refusing_world =
     Some (Inl (FtpError ''421''),
           refusing_world\<lparr>closed := True, trace := [Cwd ''/'', LogError (FtpError ''421''), Close]\<rparr>)"
  using with_FTPLogErrors_effect [where body = "\<lambda>w. Some (cwd ''/'' w)" and w = sample_world and v = "()"
       and ?w1.0 = "sample_world\<lparr>trace := [Cwd ''/'']\<rparr>"]
    with_FTPLogErrors_effect [where body = "\<lambda>w. Some (cwd ''/'' w)" and w = refusing_world and e = "FtpError ''421''"
       and ?w1.0 = "refusing_world\<lparr>trace := [Cwd ''/'']\<rparr>"]
  by (simp add: cwd_def call_def resolve_def split_def enter_def refusing_world_def sample_world_def)

text \<open>
  C8. The guard is to log every error that leaves the scope before it closes the
  connection. \<open>__exit__\<close> tests \<open>if exc_val:\<close>, the truth value of the exception, not
  whether there is one: when the body raises an exception that is false in a condition,
  the connection is closed and the exception raised again, but nothing is logged.
\<close>

theorem FTPLogErrors_does_not_log_falsy_exception:
  "with_FTPLogErrors (raising (FalsyError ''empty'')) sample_world =
     Some (Inl (FalsyError ''empty''), sample_world\<lparr>closed := True, trace := [Close]\<rparr>)"
  by (simp add: with_FTPLogErrors_def FTPLogErrors_exit_def close_def raising_def
      sample_world_def)

section \<open>\_download\<close>

lemma concat_blocks: "0 < n \<Longrightarrow> concat (blocks n xs) = xs"
proof (induction n xs rule: blocks.induct)
  case (1 n xs)
  show ?case
  proof (cases "xs = []")
    case True
    then show ?thesis by simp
  next
    case False
    with 1 have "concat (blocks n (drop n xs)) = drop n xs" by simp
    with False 1(2) show ?thesis
      by (subst blocks.simps) (simp del: blocks.simps)
  qed
qed

lemma write_all_ok:
  "for_each (file_write fp) chunks w = (Inr u, w') \<Longrightarrow> local_fs w fp = Some (RegularFile b) \<Longrightarrow>
   w' = w\<lparr>local_fs := (local_fs w)(fp \<mapsto> RegularFile (b @ concat chunks))\<rparr>"
proof (induction chunks arbitrary: w b)
  case Nil
  then show ?case by (simp add: fun_upd_idem)
next
  case (Cons c cs)
  let ?w1 = "w\<lparr>local_fs := (local_fs w)(fp \<mapsto> RegularFile (b @ c))\<rparr>"
  from Cons.prems have 1: "file_write fp c w = (Inr (), ?w1)"
    by (simp add: file_write_def)
  with Cons.prems have 2: "for_each (file_write fp) cs ?w1 = (Inr u, w')" by simp
  have "local_fs ?w1 fp = Some (RegularFile (b @ c))" by simp
  from Cons.IH [OF 2 this] show ?case by (auto simp: fun_eq_iff)
qed

lemma handle_all_ok:
  fixes h :: "bytes \<Rightarrow> 'u \<Rightarrow> exn + 'u"
  shows "for_each (call_handler h) chunks w = (Inr u, w') \<Longrightarrow>
   \<exists>u'. feed h chunks (user w) = Inr u' \<and> w' = w\<lparr>user := u'\<rparr>"
proof (induction chunks arbitrary: w)
  case Nil
  then show ?case by simp
next
  case (Cons c cs)
  have s: "call_handler h c w =
      (case h c (user w) of Inl e \<Rightarrow> (Inl e, w) | Inr u \<Rightarrow> (Inr (), w\<lparr>user := u\<rparr>))"
    by (simp add: call_handler_def)
  from Cons.prems obtain u1 where h: "h c (user w) = Inr u1"
    and r: "for_each (call_handler h) cs (w\<lparr>user := u1\<rparr>) = (Inr u, w')"
    by (auto simp: s split: sum.splits)
  from Cons.IH [OF r] h show ?case by auto
qed

lemma retrbinary_ok:
  assumes "retrbinary (''RETR '' @ fp) sink w = (Inr u, w')"
  shows "\<exists>data. map_of (files w) (resolve (pwd w) fp) = Some data \<and>
           for_each sink (blocks 8192 data) (w\<lparr>trace := trace w @ [Retrbinary (''RETR '' @ fp)]\<rparr>)
             = (Inr u, w')"
  using call_ok [OF assms [unfolded retrbinary_def]]
  by (auto split: option.splits simp del: blocks.simps)

lemma open_wb_ok:
  assumes "open_file p ''wb'' w = (Inr fobj, w')"
  shows "fobj = p \<and>
         w' = w\<lparr>trace := trace w @ [OpenFile p ''wb''],
                local_fs := (local_fs w)(p \<mapsto> RegularFile []),
                open_files := p # open_files w\<rparr>"
  using call_ok [OF assms [unfolded open_file_def]]
  by (auto split: option.splits local_entry.splits)

lemma private_download_without_handler:
  assumes "download_handler = None \<or>
           (\<exists>h. download_handler = Some h \<and> \<not> handler_truth h (user w))"
  shows "private_download local_file_path ftp_file_path download_handler w =
     thn (thn (open_file local_file_path ''wb'') (\<lambda>fobj w. (Inr (Some fobj, file_write fobj), w)))
       (\<lambda>(fobj, sink).
     thn (retrbinary (''RETR '' @ ftp_file_path) sink) (\<lambda>u w.
       (case fobj of None \<Rightarrow> (Inr (), w) | Some fp \<Rightarrow> (Inr (), file_close fp w)))) w"
  using assms by (auto simp: private_download_def thn_def)

lemma private_download_with_handler:
  assumes "handler_truth h (user w)"
  shows "private_download local_file_path ftp_file_path (Some h) w =
     thn (retrbinary (''RETR '' @ ftp_file_path) (call_handler (handler_call h)))
       (\<lambda>u w. (Inr (), w)) w"
  using assms by (simp add: private_download_def thn_def)

text \<open>
  What \<open>_download\<close> has done when it returns normally. When no handler was given, or one
  that is false in a condition, the local file was opened for binary writing, it holds
  the bytes of the remote file, written block by block, and it was closed after the
  transfer, so that no more files are open than before, and the state of the caller is
  untouched. When a handler was given that is true in a condition, the blocks of the
  remote file were fed to it one after the other in their order, and nothing else
  happened: no local file was opened or closed, the connection was not closed.
\<close>

lemma private_download_effect:
  "((download_handler = None \<or>
     (\<exists>h. download_handler = Some h \<and> \<not> handler_truth h (user w))) \<and>
    private_download local_file_path ftp_file_path download_handler w = (Inr u, w') \<longrightarrow>
      (\<exists>data. map_of (files w) (resolve (pwd w) ftp_file_path) = Some data \<and>
         local_fs w' local_file_path = Some (RegularFile data) \<and>
         trace w' = trace w @ [OpenFile local_file_path ''wb'',
                               Retrbinary (''RETR '' @ ftp_file_path),
                               CloseFile local_file_path] \<and>
         open_files w' = open_files w \<and> closed w' = closed w \<and> user w' = user w)) \<and>
   (handler_truth handler (user w) \<and>
    private_download local_file_path ftp_file_path (Some handler) w = (Inr u, w') \<longrightarrow>
      (\<exists>data received. map_of (files w) (resolve (pwd w) ftp_file_path) = Some data \<and>
         feed (handler_call handler) (blocks 8192 data) (user w) = Inr received \<and>
         concat (blocks 8192 data) = data \<and>
         w' = w\<lparr>trace := trace w @ [Retrbinary (''RETR '' @ ftp_file_path)], user := received\<rparr>))"
proof (intro conjI impI)
  assume "(download_handler = None \<or>
     (\<exists>h. download_handler = Some h \<and> \<not> handler_truth h (user w))) \<and>
    private_download local_file_path ftp_file_path download_handler w = (Inr u, w')"
  then have n: "download_handler = None \<or>
     (\<exists>h. download_handler = Some h \<and> \<not> handler_truth h (user w))"
    and a: "private_download local_file_path ftp_file_path download_handler w = (Inr u, w')"
    by auto
  let ?lp = local_file_path
  from a obtain fobj w1 w2 where
    o: "open_file ?lp ''wb'' w = (Inr fobj, w1)" and
    r: "retrbinary (''RETR '' @ ftp_file_path) (file_write fobj) w1 = (Inr (), w2)" and
    c: "w' = file_close fobj w2"
    unfolding private_download_without_handler [OF n] by (auto dest!: thn_ok)
  from open_wb_ok [OF o] have f: "fobj = ?lp" and
    w1: "w1 = w\<lparr>trace := trace w @ [OpenFile ?lp ''wb''],
                local_fs := (local_fs w)(?lp \<mapsto> RegularFile []),
                open_files := ?lp # open_files w\<rparr>" by auto
  from retrbinary_ok [OF r] obtain data where
    d: "map_of (files w1) (resolve (pwd w1) ftp_file_path) = Some data" and
    l: "for_each (file_write fobj) (blocks 8192 data)
          (w1\<lparr>trace := trace w1 @ [Retrbinary (''RETR '' @ ftp_file_path)]\<rparr>) = (Inr (), w2)"
    by auto
  have "local_fs (w1\<lparr>trace := trace w1 @ [Retrbinary (''RETR '' @ ftp_file_path)]\<rparr>) fobj
          = Some (RegularFile [])"
    by (simp add: w1 f)
  from write_all_ok [OF l this]
  have w2: "w2 = w1\<lparr>trace := trace w1 @ [Retrbinary (''RETR '' @ ftp_file_path)],
                    local_fs := (local_fs w1)(?lp \<mapsto> RegularFile data)\<rparr>"
    by (simp add: concat_blocks f del: blocks.simps)
  show "\<exists>data. map_of (files w) (resolve (pwd w) ftp_file_path) = Some data \<and>
         local_fs w' ?lp = Some (RegularFile data) \<and>
         trace w' = trace w @ [OpenFile ?lp ''wb'', Retrbinary (''RETR '' @ ftp_file_path),
                               CloseFile ?lp] \<and>
         open_files w' = open_files w \<and> closed w' = closed w \<and> user w' = user w"
    using d by (intro exI [of _ data]) (simp add: c w2 w1 f file_close_def)
next
  assume "handler_truth handler (user w) \<and>
    private_download local_file_path ftp_file_path (Some handler) w = (Inr u, w')"
  then have t: "handler_truth handler (user w)"
    and a: "private_download local_file_path ftp_file_path (Some handler) w = (Inr u, w')"
    by auto
  from a have r: "retrbinary (''RETR '' @ ftp_file_path) (call_handler (handler_call handler)) w
                    = (Inr (), w')"
    unfolding private_download_with_handler [OF t] by (auto dest!: thn_ok)
  from retrbinary_ok [OF r] obtain data where
    d: "map_of (files w) (resolve (pwd w) ftp_file_path) = Some data" and
    l: "for_each (call_handler (handler_call handler)) (blocks 8192 data)
          (w\<lparr>trace := trace w @ [Retrbinary (''RETR '' @ ftp_file_path)]\<rparr>) = (Inr (), w')"
    by auto
  from handle_all_ok [OF l] obtain received where
    "feed (handler_call handler) (blocks 8192 data) (user w) = Inr received"
    "w' = w\<lparr>trace := trace w @ [Retrbinary (''RETR '' @ ftp_file_path)], user := received\<rparr>"
    by auto
  with d show "\<exists>data received. map_of (files w) (resolve (pwd w) ftp_file_path) = Some data \<and>
         feed (handler_call handler) (blocks 8192 data) (user w) = Inr received \<and>
         concat (blocks 8192 data) = data \<and>
         w' = w\<lparr>trace := trace w @ [Retrbinary (''RETR '' @ ftp_file_path)], user := received\<rparr>"
    by (auto simp: concat_blocks simp del: blocks.simps)
qed

lemma private_download_effect_example:
  "private_download ''out.bin'' ''sample.txt'' None crowded_world =
     (Inr (), crowded_world\<lparr>
        local_fs := (local_fs crowded_world)(''out.bin'' \<mapsto> RegularFile ''first''),
        trace := [OpenFile ''out.bin'' ''wb'', Retrbinary ''RETR sample.txt'',
                  CloseFile ''out.bin'']\<rparr>) \<and>
   private_download [] ''sample.txt'' (Some collect) crowded_world =
     (Inr (), crowded_world\<lparr>trace := [Retrbinary ''RETR sample.txt''], user := ''first''\<rparr>)"
  by (simp add: private_download_def thn_def open_file_def retrbinary_def call_def
      file_write_def file_close_def call_handler_def collect_def resolve_def split_def enter_def
      crowded_world_def sample_world_def)

text \<open>
  C9. A sink callback that the caller supplies is to receive every chunk. \<open>_download\<close>
  tests \<open>if not download_handler:\<close>, the truth value of the handler, not whether there is
  one: a callable that is false in a condition, such as a list that appends to itself
  and is still empty, is set aside; the local file is opened, written and closed in its
  place, and the callable receives nothing.
\<close>

theorem download_ignores_falsy_handler:
  "private_download ''out.bin'' ''sample.txt'' (Some list_collector) crowded_world =
     (Inr (), crowded_world\<lparr>
        local_fs := (local_fs crowded_world)(''out.bin'' \<mapsto> RegularFile ''first''),
        trace := [OpenFile ''out.bin'' ''wb'', Retrbinary ''RETR sample.txt'',
                  CloseFile ''out.bin'']\<rparr>) \<and>
   user crowded_world = []"
  by (simp add: private_download_def thn_def open_file_def retrbinary_def call_def
      file_write_def file_close_def list_collector_def resolve_def split_def enter_def
      crowded_world_def sample_world_def)

section \<open>upload\_file: the names of repeated uploads\<close>

subsection \<open>Plain names\<close>

lemma split_from_plain: "sep \<notin> set s \<Longrightarrow> split_from sep cur s = [cur @ s]"
  by (induction s arbitrary: cur) auto

lemma resolve_plain: "plain_name n \<Longrightarrow> resolve d n = d @ [n]"
proof -
  assume p: "plain_name n"
  then have "split CHR ''/'' n = [n]" by (simp add: split_def split_from_plain plain_name_def)
  moreover from p have "take 1 n \<noteq> ''/''" by (cases n) (auto simp: plain_name_def)
  ultimately show ?thesis using p by (simp add: resolve_def enter_def plain_name_def)
qed

lemma splitext_scan_append: "splitext_scan p f d = (r, e) \<Longrightarrow> r @ e = p"
proof (induction p f d rule: splitext_scan.induct)
  case (1 p f d)
  have eq: "splitext_scan p f d =
     (if 0 \<le> f \<and> f < d then
        (if take 1 (drop (nat f) p) \<noteq> ''.''
         then (take (nat d) p, drop (nat d) p)
         else splitext_scan p (f + 1) d)
      else (p, []))"
    by (rule splitext_scan.simps)
  show ?case
  proof (cases "0 \<le> f \<and> f < d")
    case False
    with eq "1.prems" show ?thesis by (simp del: splitext_scan.simps)
  next
    case True
    show ?thesis
    proof (cases "take 1 (drop (nat f) p) \<noteq> ''.''")
      case True
      with eq "1.prems" \<open>0 \<le> f \<and> f < d\<close> show ?thesis by (auto simp del: splitext_scan.simps)
    next
      case False
      with eq "1.prems" \<open>0 \<le> f \<and> f < d\<close> have "splitext_scan p (f + 1) d = (r, e)"
        by (simp del: splitext_scan.simps)
      with "1.IH" \<open>0 \<le> f \<and> f < d\<close> False show ?thesis by blast
    qed
  qed
qed

lemma splitext_append: "splitext p = (r, e) \<Longrightarrow> r @ e = p"
  by (auto simp: splitext_def Let_def split: if_splits dest: splitext_scan_append
      simp del: splitext_scan.simps)

lemma digit_char_not_slash: "d < 10 \<Longrightarrow> digit_char d \<noteq> CHR ''/''"
proof
  assume "d < 10" "digit_char d = CHR ''/''"
  then have "(48 + d :: nat) = of_char (CHR ''/'')" using of_char_digit_char [of d] by simp
  then show False by simp
qed

lemma str_nat_no_slash: "CHR ''/'' \<notin> set (str_nat n)"
proof (induction n rule: str_nat.induct)
  case (1 n)
  show ?case
  proof (cases "n < 10")
    case True
    then show ?thesis using digit_char_not_slash [of n] by auto
  next
    case False
    with 1 have "CHR ''/'' \<notin> set (str_nat (n div 10))" by simp
    moreover have "digit_char (n mod 10) \<noteq> CHR ''/''" by (rule digit_char_not_slash) simp
    ultimately show ?thesis using False
      by (subst str_nat.simps) (simp del: str_nat.simps)
  qed
qed

lemma plain_numbered_name:
  assumes "plain_name n" "0 \<le> k"
  shows "plain_name (numbered_name n k)"
proof -
  obtain r e where s: "splitext n = (r, e)" by (cases "splitext n")
  from splitext_append [OF s] assms(1) have "CHR ''/'' \<notin> set r" "CHR ''/'' \<notin> set e"
    by (auto simp: plain_name_def)
  moreover have "CHR ''/'' \<notin> set (str_int k)"
    using assms(2) by (simp add: str_int_def str_nat_no_slash del: str_nat.simps)
  ultimately have 1: "CHR ''/'' \<notin> set (numbered_name n k)"
    by (simp add: numbered_name_def s)
  have 2: "CHR ''-'' \<in> set (numbered_name n k)" by (simp add: numbered_name_def s)
  then have "numbered_name n k \<noteq> []" "numbered_name n k \<noteq> ''.''" "numbered_name n k \<noteq> ''..''"
    by auto
  with 1 show ?thesis by (simp add: plain_name_def)
qed

subsection \<open>What the steps of an upload leave untouched\<close>

lemma call_keeps:
  assumes "\<And>w1 r w2. run w1 = (r, w2) \<Longrightarrow> files w2 = files w1 \<and> local_fs w2 = local_fs w1"
    and "call ev run w = (r, w')"
  shows "files w' = files w \<and> local_fs w' = local_fs w"
proof (cases "faults w (length (trace w))")
  case None
  with assms(2) have "run (w\<lparr>trace := trace w @ [ev]\<rparr>) = (r, w')" by (simp add: call_def Let_def)
  from assms(1) [OF this] show ?thesis by simp
next
  case (Some e)
  with assms(2) show ?thesis by (auto simp: call_def Let_def)
qed

lemma cwd_keeps: "cwd d w = (r, w') \<Longrightarrow> files w' = files w \<and> local_fs w' = local_fs w"
  unfolding cwd_def by (erule call_keeps [rotated]) auto

lemma mkd_keeps: "mkd d w = (r, w') \<Longrightarrow> files w' = files w \<and> local_fs w' = local_fs w"
  unfolding mkd_def by (erule call_keeps [rotated]) auto

lemma nlst_keeps: "nlst d w = (r, w') \<Longrightarrow> files w' = files w \<and> local_fs w' = local_fs w"
  unfolding nlst_def by (erule call_keeps [rotated]) auto

lemma thn_keeps:
  assumes "\<And>w1 r w2. m w1 = (r, w2) \<Longrightarrow> files w2 = files w1 \<and> local_fs w2 = local_fs w1"
    and "\<And>a w1 r w2. f a w1 = (r, w2) \<Longrightarrow> files w2 = files w1 \<and> local_fs w2 = local_fs w1"
    and "thn m f w = (r, w')"
  shows "files w' = files w \<and> local_fs w' = local_fs w"
proof (cases "m w")
  case (Pair r1 w1)
  note k1 = assms(1) [OF Pair]
  show ?thesis
  proof (cases r1)
    case (Inl e)
    with Pair assms(3) k1 show ?thesis by (simp add: thn_def)
  next
    case (Inr a)
    with Pair assms(3) have "f a w1 = (r, w')" by (simp add: thn_def)
    from assms(2) [OF this] k1 show ?thesis by simp
  qed
qed

lemma for_each_keeps:
  assumes "\<And>x w1 r w2. body x w1 = (r, w2) \<Longrightarrow> files w2 = files w1 \<and> local_fs w2 = local_fs w1"
  shows "for_each body xs w = (r, w') \<Longrightarrow> files w' = files w \<and> local_fs w' = local_fs w"
proof (induction xs arbitrary: w)
  case Nil
  then show ?case by auto
next
  case (Cons x xs)
  show ?case
  proof (cases "body x w")
    case (Pair r1 w1)
    note k1 = assms [OF Pair]
    show ?thesis
    proof (cases r1)
      case (Inl e)
      with Pair Cons.prems k1 show ?thesis by simp
    next
      case (Inr a)
      with Pair Cons.prems have "for_each body xs w1 = (r, w')" by simp
      from Cons.IH [OF this] k1 show ?thesis by simp
    qed
  qed
qed

lemma makedirs_keeps:
  "makedirs path base w = (r, w') \<Longrightarrow> files w' = files w \<and> local_fs w' = local_fs w"
  unfolding makedirs_def
  apply (erule thn_keeps [rotated 2])
   apply (erule cwd_keeps)
  apply (erule thn_keeps [rotated 2])
   apply (erule for_each_keeps [rotated])
   apply (erule thn_keeps [rotated 2])
    apply (erule mkd_keeps)
   apply (erule cwd_keeps)
  apply (erule cwd_keeps)
  done

lemma resolve_root: "resolve cur ''/'' = []"
  by (simp add: resolve_def split_def enter_def)

lemma makedirs_root_ok: "makedirs path ''/'' w = (Inr u, w') \<Longrightarrow> pwd w' = []"
  by (drule makedirs_ok) (simp add: resolve_root)

lemma file_names_sub_entries: "set (file_names w d) \<subseteq> set (entries w d)"
  by (auto simp: file_names_def entries_def)

lemma get_unique_ok:
  assumes "get_unique_file_name_if_exists fn d w = Some (Inr out, w')"
  shows "w' = w\<lparr>trace := trace w @ [Nlst d]\<rparr> \<and>
         out \<notin> set (entries w (resolve (pwd w) d)) \<and>
         (out = fn \<or> (\<exists>k\<ge>1. out = numbered_name fn k))"
proof -
  from assms obtain names where
    l: "nlst d w = (Inr names, w')" and
    u: "unique_name_loop (set names) fn 1 fn = Some out"
    by (auto simp: get_unique_file_name_if_exists_def list_files_def
        split: prod.splits sum.splits option.splits)
  from call_ok [OF l [unfolded nlst_def]]
  have w': "w' = w\<lparr>trace := trace w @ [Nlst d]\<rparr>" and
    n: "names = entries w (resolve (pwd w) d)"
    by (auto simp: entries_def)
  from unique_name_loop_result [of "set names" fn] u
  have "out \<notin> set names" "out = fn \<or> (\<exists>k\<ge>1. out = numbered_name fn k)" by auto
  with w' n show ?thesis by simp
qed

lemma get_unique_keeps:
  "get_unique_file_name_if_exists fn d w = Some (r, w') \<Longrightarrow>
   files w' = files w \<and> local_fs w' = local_fs w"
  by (auto simp: get_unique_file_name_if_exists_def list_files_def
      split: prod.splits sum.splits option.splits dest: nlst_keeps)

lemma open_rb_ok:
  assumes "open_file p ''rb'' w = (Inr fobj, w')"
  shows "fobj = p \<and> (\<exists>data. local_fs w p = Some (RegularFile data)) \<and>
         w' = w\<lparr>trace := trace w @ [OpenFile p ''rb''], open_files := p # open_files w\<rparr>"
  using call_ok [OF assms [unfolded open_file_def]]
  by (auto split: option.splits local_entry.splits)

lemma open_rb_keeps:
  "open_file p ''rb'' w = (r, w') \<Longrightarrow> files w' = files w \<and> local_fs w' = local_fs w"
  unfolding open_file_def
  by (erule call_keeps [rotated]) (auto split: option.splits local_entry.splits)

lemma storbinary_ok:
  assumes "storbinary (''STOR '' @ out) fp w = (Inr u, w')"
  shows "\<exists>data. local_fs w fp = Some (RegularFile data) \<and>
           w' = w\<lparr>trace := trace w @ [Storbinary (''STOR '' @ out)],
                  files := AList.update (resolve (pwd w) out) data (files w)\<rparr>"
  using call_ok [OF assms [unfolded storbinary_def]]
  by (auto split: option.splits local_entry.splits)

lemma storbinary_raises_keeps:
  "storbinary cmd fp w = (Inl e, w') \<Longrightarrow> files w' = files w \<and> local_fs w' = local_fs w"
  by (auto simp: storbinary_def call_def Let_def split: option.splits local_entry.splits)

subsection \<open>One upload\<close>

lemma upload_file_body_ok:
  assumes "upload_file_body ld fn dir re w = Some (Inr out, w')"
  shows "\<exists>data tr.
           local_fs w (path_join ld fn) = Some (RegularFile data) \<and>
           local_fs w' = local_fs w \<and>
           files w' = AList.update (resolve (resolve [] dir) out) data (files w) \<and>
           trace w' = tr @ [OpenFile (path_join ld fn) ''rb'', Storbinary (''STOR '' @ out),
                            CloseFile (path_join ld fn)] \<and>
           (re \<longrightarrow> out = fn) \<and>
           (\<not> re \<longrightarrow> out \<notin> set (file_names w (resolve [] dir)) \<and>
                     (out = fn \<or> (\<exists>k\<ge>1. out = numbered_name fn k)))"
proof -
  let ?fp = "path_join ld fn"
  from assms obtain u1 w1 u2 w2 w3 fobj w4 u5 w5 where
    m: "makedirs dir ''/'' w = (Inr u1, w1)" and
    c: "cwd dir w1 = (Inr u2, w2)" and
    g: "(if \<not> re then get_unique_file_name_if_exists fn [] w2 else Some (Inr fn, w2))
          = Some (Inr out, w3)" and
    o: "open_file ?fp ''rb'' w3 = (Inr fobj, w4)" and
    s: "storbinary (''STOR '' @ out) fobj w4 = (Inr u5, w5)" and
    w': "w' = file_close fobj w5"
    by (auto simp: upload_file_body_def Let_def
        split: if_splits prod.splits sum.splits option.splits)
  from makedirs_keeps [OF m] have k1: "files w1 = files w" "local_fs w1 = local_fs w" by auto
  from makedirs_root_ok [OF m] have p1: "pwd w1 = []" .
  from cwd_ok [OF c] p1 have w2: "files w2 = files w1" "local_fs w2 = local_fs w1"
    "pwd w2 = resolve [] dir" by auto
  have w3: "files w3 = files w2 \<and> local_fs w3 = local_fs w2 \<and> pwd w3 = pwd w2 \<and>
            (re \<longrightarrow> out = fn) \<and>
            (\<not> re \<longrightarrow> out \<notin> set (entries w2 (pwd w2)) \<and>
                     (out = fn \<or> (\<exists>k\<ge>1. out = numbered_name fn k)))"
  proof (cases re)
    case True
    with g show ?thesis by simp
  next
    case False
    with g have "get_unique_file_name_if_exists fn [] w2 = Some (Inr out, w3)" by simp
    from get_unique_ok [OF this] False show ?thesis
      by (auto simp: resolve_def split_def enter_def)
  qed
  from open_rb_ok [OF o] obtain data where
    f: "fobj = ?fp" and d: "local_fs w3 ?fp = Some (RegularFile data)" and
    w4: "w4 = w3\<lparr>trace := trace w3 @ [OpenFile ?fp ''rb''], open_files := ?fp # open_files w3\<rparr>"
    by auto
  from storbinary_ok [OF s] d f w4 have
    w5: "w5 = w4\<lparr>trace := trace w4 @ [Storbinary (''STOR '' @ out)],
                  files := AList.update (resolve (pwd w4) out) data (files w4)\<rparr>"
    by auto
  have fn: "file_names w2 (resolve [] dir) = file_names w (resolve [] dir)"
    by (simp add: file_names_def w2 k1)
  have "out \<notin> set (file_names w (resolve [] dir))" if "\<not> re"
    using that w3 w2(3) file_names_sub_entries [of w2 "resolve [] dir"] fn by auto
  moreover have "local_fs w (path_join ld fn) = Some (RegularFile data)"
    using d w3 w2 k1 by simp
  moreover have "local_fs w' = local_fs w"
    using w' w5 w4 w3 w2 k1 by (simp add: file_close_def)
  moreover have "files w' = AList.update (resolve (resolve [] dir) out) data (files w)"
    using w' w5 w4 w3 w2 k1 by (simp add: file_close_def)
  moreover have "trace w' = trace w3 @ [OpenFile ?fp ''rb'', Storbinary (''STOR '' @ out),
                            CloseFile ?fp]"
    using w' w5 w4 f by (simp add: file_close_def)
  ultimately show ?thesis using w3 by blast
qed

lemma upload_file_body_raises_keeps:
  assumes "upload_file_body ld fn dir re w = Some (Inl e, w')"
  shows "files w' = files w \<and> local_fs w' = local_fs w"
proof -
  let ?fp = "path_join ld fn"
  show ?thesis
  proof (cases "\<not> path_exists w ?fp \<or> \<not> path_isfile w ?fp")
    case True
    with assms show ?thesis by (simp add: upload_file_body_def Let_def)
  next
    case ok: False
    obtain r1 w1 where m: "makedirs dir ''/'' w = (r1, w1)" by (cases "makedirs dir ''/'' w")
    note k1 = makedirs_keeps [OF m]
    show ?thesis
    proof (cases r1)
      case (Inl e1)
      with assms ok m k1 show ?thesis by (simp add: upload_file_body_def Let_def)
    next
      case r1: (Inr u1)
      obtain r2 w2 where c: "cwd dir w1 = (r2, w2)" by (cases "cwd dir w1")
      note k2 = cwd_keeps [OF c]
      show ?thesis
      proof (cases r2)
        case (Inl e2)
        with assms ok m r1 c k1 k2 show ?thesis by (simp add: upload_file_body_def Let_def)
      next
        case r2: (Inr u2)
        let ?g = "if \<not> re then get_unique_file_name_if_exists fn [] w2 else Some (Inr fn, w2)"
        from assms ok m r1 c r2 obtain r3 w3 where g: "?g = Some (r3, w3)"
          by (cases ?g) (auto simp: upload_file_body_def Let_def)
        have k3: "files w3 = files w2 \<and> local_fs w3 = local_fs w2"
          using g get_unique_keeps [of fn "[]" w2 r3 w3] by (auto split: if_splits)
        show ?thesis
        proof (cases r3)
          case (Inl e3)
          with assms ok m r1 c r2 g k1 k2 k3 show ?thesis
            by (simp add: upload_file_body_def Let_def)
        next
          case r3: (Inr out)
          obtain r4 w4 where o: "open_file ?fp ''rb'' w3 = (r4, w4)"
            by (cases "open_file ?fp ''rb'' w3")
          note k4 = open_rb_keeps [OF o]
          show ?thesis
          proof (cases r4)
            case (Inl e4)
            with assms ok m r1 c r2 g r3 o k1 k2 k3 k4 show ?thesis
              by (simp add: upload_file_body_def Let_def)
          next
            case r4: (Inr fobj)
            obtain r5 w5 where s: "storbinary (''STOR '' @ out) fobj w4 = (r5, w5)"
              by (cases "storbinary (''STOR '' @ out) fobj w4")
            show ?thesis
            proof (cases r5)
              case (Inl e5)
              from storbinary_raises_keeps [OF s [unfolded Inl]]
              have k5: "files w5 = files w4 \<and> local_fs w5 = local_fs w4" .
              from assms ok m r1 c r2 g r3 o r4 s Inl have "w' = file_close fobj w5"
                by (simp add: upload_file_body_def Let_def)
              with k1 k2 k3 k4 k5 show ?thesis by (simp add: file_close_def)
            next
              case (Inr u5)
              with assms ok m r1 c r2 g r3 o r4 s show ?thesis
                by (simp add: upload_file_body_def Let_def)
            qed
          qed
        qed
      qed
    qed
  qed
qed

lemma retry_ok:
  assumes "retry fn s0 = Some (Inr v, s', rs)"
  shows "fn s0 = Some (Inr v, s') \<or>
         (\<exists>e1 s1. fn s0 = Some (Inl e1, s1) \<and>
            (fn s1 = Some (Inr v, s') \<or>
             (\<exists>e2 s2. fn s1 = Some (Inl e2, s2) \<and> fn s2 = Some (Inr v, s'))))"
  using assms
  by (auto simp: retry_unfold retry_if_exception_type_def
      split: option.splits prod.splits if_splits sum.splits)

lemma upload_file_ok:
  assumes "upload_file ld fn dir re w = Some (Inr out, w', rs)"
  shows "\<exists>data tr.
           local_fs w (path_join ld fn) = Some (RegularFile data) \<and>
           local_fs w' = local_fs w \<and>
           files w' = AList.update (resolve (resolve [] dir) out) data (files w) \<and>
           trace w' = tr @ [OpenFile (path_join ld fn) ''rb'', Storbinary (''STOR '' @ out),
                            CloseFile (path_join ld fn)] \<and>
           (re \<longrightarrow> out = fn) \<and>
           (\<not> re \<longrightarrow> out \<notin> set (file_names w (resolve [] dir)) \<and>
                     (out = fn \<or> (\<exists>k\<ge>1. out = numbered_name fn k)))"
proof -
  let ?body = "upload_file_body ld fn dir re"
  from retry_ok [OF assms [unfolded upload_file_def]]
  obtain wm where b: "?body wm = Some (Inr out, w')" and
    k: "files wm = files w \<and> local_fs wm = local_fs w"
  proof (elim disjE exE conjE)
    assume "?body w = Some (Inr out, w')"
    then show ?thesis by (intro that [of w]) auto
  next
    fix e1 s1 assume "?body w = Some (Inl e1, s1)" "?body s1 = Some (Inr out, w')"
    then show ?thesis using upload_file_body_raises_keeps [of ld fn dir re w e1 s1]
      by (intro that [of s1]) auto
  next
    fix e1 s1 e2 s2
    assume "?body w = Some (Inl e1, s1)" "?body s1 = Some (Inl e2, s2)"
      "?body s2 = Some (Inr out, w')"
    then show ?thesis
      using upload_file_body_raises_keeps [of ld fn dir re w e1 s1]
        upload_file_body_raises_keeps [of ld fn dir re s1 e2 s2]
      by (intro that [of s2]) auto
  qed
  from upload_file_body_ok [OF b] k show ?thesis by (simp add: file_names_def)
qed

lemma set_file_names:
  "set (file_names w d) = last ` {p \<in> set (map fst (files w)). p \<noteq> [] \<and> butlast p = d}"
  by (auto simp: file_names_def)

lemma file_names_update:
  assumes "files w' = AList.update (d @ [n]) data (files w)"
  shows "set (file_names w' d) = insert n (set (file_names w d))"
proof -
  have k: "set (map fst (files w')) = insert (d @ [n]) (set (map fst (files w)))"
    unfolding assms by (auto simp: update_keys)
  have "{p \<in> set (map fst (files w')). p \<noteq> [] \<and> butlast p = d} =
        insert (d @ [n]) {p \<in> set (map fst (files w)). p \<noteq> [] \<and> butlast p = d}"
    unfolding k by auto
  then show ?thesis unfolding set_file_names by simp
qed

lemma upload_file_plain:
  assumes "plain_name fn" "upload_file ld fn dir re w = Some (Inr out, w', rs)"
  shows "plain_name out \<and> (re \<longrightarrow> out = fn) \<and>
         (\<not> re \<longrightarrow> out \<notin> set (file_names w (resolve [] dir))) \<and>
         set (file_names w' (resolve [] dir)) = insert out (set (file_names w (resolve [] dir))) \<and>
         local_fs w' = local_fs w \<and>
         (\<exists>data. local_fs w (path_join ld fn) = Some (RegularFile data) \<and>
                 map_of (files w') (resolve [] dir @ [out]) = Some data) \<and>
         (\<exists>tr. trace w' = tr @ [OpenFile (path_join ld fn) ''rb'', Storbinary (''STOR '' @ out),
                                CloseFile (path_join ld fn)])"
proof -
  from upload_file_ok [OF assms(2)] obtain data tr where
    d: "local_fs w (path_join ld fn) = Some (RegularFile data)" and
    l: "local_fs w' = local_fs w" and
    f: "files w' = AList.update (resolve (resolve [] dir) out) data (files w)" and
    t: "trace w' = tr @ [OpenFile (path_join ld fn) ''rb'', Storbinary (''STOR '' @ out),
                         CloseFile (path_join ld fn)]" and
    r: "re \<longrightarrow> out = fn" and
    n: "\<not> re \<longrightarrow> out \<notin> set (file_names w (resolve [] dir)) \<and>
                 (out = fn \<or> (\<exists>k\<ge>1. out = numbered_name fn k))"
    by blast
  have p: "plain_name out"
  proof (cases re)
    case True
    with r assms(1) show ?thesis by simp
  next
    case False
    with n have "out = fn \<or> (\<exists>k\<ge>1. out = numbered_name fn k)" by simp
    then show ?thesis using assms(1) plain_numbered_name [of fn] by auto
  qed
  from f have f': "files w' = AList.update (resolve [] dir @ [out]) data (files w)"
    by (simp add: resolve_plain [OF p])
  have "map_of (files w') (resolve [] dir @ [out]) = Some data"
    unfolding f' by (simp add: update_conv')
  with p r n d l t file_names_update [OF f'] show ?thesis by blast
qed

text \<open>
  Three uploads in a row of a file name that is a plain entry name to the same
  directory, each of which returns normally. With \<open>rename_existing\<close> false the three
  names returned are pairwise different and none of them was a file of the directory
  before, so the directory has three more files; with \<open>rename_existing\<close> true the three
  names are the file name itself, so the directory has that one file more, written
  three times. In both cases the name returned is the one in the \<open>STOR\<close> command of the
  upload, the last command sent, and the file of that name holds the bytes of the local
  file.
\<close>

lemma upload_file_three_uploads:
  assumes "plain_name file_name"
    and "upload_file local_directory file_name ftp_directory rename_existing w0 = Some (Inr n1, w1, r1)"
    and "upload_file local_directory file_name ftp_directory rename_existing w1 = Some (Inr n2, w2, r2)"
    and "upload_file local_directory file_name ftp_directory rename_existing w2 = Some (Inr n3, w3, r3)"
  shows "(\<not> rename_existing \<longrightarrow>
            distinct [n1, n2, n3] \<and>
            set [n1, n2, n3] \<inter> set (file_names w0 (resolve [] ftp_directory)) = {}) \<and>
         (rename_existing \<longrightarrow> n1 = file_name \<and> n2 = file_name \<and> n3 = file_name) \<and>
         set (file_names w3 (resolve [] ftp_directory)) =
           set (file_names w0 (resolve [] ftp_directory)) \<union> {n1, n2, n3} \<and>
         (\<exists>tr. trace w1 = tr @ [OpenFile (path_join local_directory file_name) ''rb'',
                                Storbinary (''STOR '' @ n1),
                                CloseFile (path_join local_directory file_name)]) \<and>
         (\<exists>tr. trace w2 = tr @ [OpenFile (path_join local_directory file_name) ''rb'',
                                Storbinary (''STOR '' @ n2),
                                CloseFile (path_join local_directory file_name)]) \<and>
         (\<exists>tr. trace w3 = tr @ [OpenFile (path_join local_directory file_name) ''rb'',
                                Storbinary (''STOR '' @ n3),
                                CloseFile (path_join local_directory file_name)]) \<and>
         (\<exists>data. local_fs w2 (path_join local_directory file_name) = Some (RegularFile data) \<and>
                 map_of (files w3) (resolve [] ftp_directory @ [n3]) = Some data)"
proof -
  note a = upload_file_plain [OF assms(1) assms(2)]
  note b = upload_file_plain [OF assms(1) assms(3)]
  note c = upload_file_plain [OF assms(1) assms(4)]
  let ?D = "resolve [] ftp_directory"
  have s1: "set (file_names w1 ?D) = insert n1 (set (file_names w0 ?D))" using a by blast
  have s2: "set (file_names w2 ?D) = insert n2 (set (file_names w1 ?D))" using b by blast
  have s3: "set (file_names w3 ?D) = insert n3 (set (file_names w2 ?D))" using c by blast
  have "distinct [n1, n2, n3] \<and> set [n1, n2, n3] \<inter> set (file_names w0 ?D) = {}"
    if "\<not> rename_existing"
  proof -
    from that a have "n1 \<notin> set (file_names w0 ?D)" by blast
    moreover from that b have "n2 \<notin> set (file_names w1 ?D)" by blast
    moreover from that c have "n3 \<notin> set (file_names w2 ?D)" by blast
    ultimately show ?thesis unfolding s1 s2 by auto
  qed
  moreover have "n1 = file_name \<and> n2 = file_name \<and> n3 = file_name" if rename_existing
    using that a b c by blast
  moreover have "set (file_names w3 ?D) = set (file_names w0 ?D) \<union> {n1, n2, n3}"
    unfolding s3 s2 s1 by auto
  ultimately show ?thesis using a b c by blast
qed

lemmas upload_eval =
  upload_file_def retry_unfold retry_if_exception_type_def upload_file_body_def Let_def
  path_exists_def path_isfile_def path_join_def makedirs_def subpaths_def strip_def split_def
  thn_def cwd_def mkd_def call_def resolve_def enter_def
  get_unique_file_name_if_exists_def list_files_def nlst_def entries_def
  unique_name_loop.simps numbered_name_def splitext_def rfind_def
  open_file_def storbinary_def file_close_def
  uploaded_world_def upload_calls_def sample_world_def

lemma str_int_1: "str_int 1 = ''1''" by code_simp
lemma str_int_2: "str_int 2 = ''2''" by code_simp

lemma upload_file_three_uploads_example:
  "plain_name ''sample.txt'' \<and>
   upload_file ''test/data'' ''sample.txt'' ''test/data/'' False sample_world =
     Some (Inr ''sample.txt'', uploaded_world False [''sample.txt''],
           \<lparr>attempt_number = 1, idle_for = 0\<rparr>) \<and>
   upload_file ''test/data'' ''sample.txt'' ''test/data/'' False
       (uploaded_world False [''sample.txt'']) =
     Some (Inr ''sample-1.txt'', uploaded_world False [''sample.txt'', ''sample-1.txt''],
           \<lparr>attempt_number = 1, idle_for = 0\<rparr>) \<and>
   upload_file ''test/data'' ''sample.txt'' ''test/data/'' False
       (uploaded_world False [''sample.txt'', ''sample-1.txt'']) =
     Some (Inr ''sample-2.txt'',
           uploaded_world False [''sample.txt'', ''sample-1.txt'', ''sample-2.txt''],
           \<lparr>attempt_number = 1, idle_for = 0\<rparr>) \<and>
   distinct [''sample.txt'', ''sample-1.txt'', ''sample-2.txt''] \<and>
   set (file_names (uploaded_world False [''sample.txt'', ''sample-1.txt'', ''sample-2.txt''])
          (resolve [] ''test/data/'')) =
     set (file_names sample_world (resolve [] ''test/data/'')) \<union>
       {''sample.txt'', ''sample-1.txt'', ''sample-2.txt''} \<and>
   upload_file ''test/data'' ''sample.txt'' ''test/data/'' True sample_world =
     Some (Inr ''sample.txt'', uploaded_world True [''sample.txt''],
           \<lparr>attempt_number = 1, idle_for = 0\<rparr>) \<and>
   upload_file ''test/data'' ''sample.txt'' ''test/data/'' True
       (uploaded_world True [''sample.txt'']) =
     Some (Inr ''sample.txt'', uploaded_world True [''sample.txt'', ''sample.txt''],
           \<lparr>attempt_number = 1, idle_for = 0\<rparr>) \<and>
   upload_file ''test/data'' ''sample.txt'' ''test/data/'' True
       (uploaded_world True [''sample.txt'', ''sample.txt'']) =
     Some (Inr ''sample.txt'', uploaded_world True [''sample.txt'', ''sample.txt'', ''sample.txt''],
           \<lparr>attempt_number = 1, idle_for = 0\<rparr>) \<and>
   set (file_names (uploaded_world True [''sample.txt'', ''sample.txt'', ''sample.txt''])
          (resolve [] ''test/data/'')) =
     set (file_names sample_world (resolve [] ''test/data/'')) \<union>
       {''sample.txt'', ''sample.txt'', ''sample.txt''}"
proof -
  have p: "plain_name ''sample.txt''" by (simp add: plain_name_def)
  have e1: "upload_file ''test/data'' ''sample.txt'' ''test/data/'' False sample_world =
     Some (Inr ''sample.txt'', uploaded_world False [''sample.txt''],
           \<lparr>attempt_number = 1, idle_for = 0\<rparr>)"
    by (simp add: upload_eval)
  have e2: "upload_file ''test/data'' ''sample.txt'' ''test/data/'' False
       (uploaded_world False [''sample.txt'']) =
     Some (Inr ''sample-1.txt'', uploaded_world False [''sample.txt'', ''sample-1.txt''],
           \<lparr>attempt_number = 1, idle_for = 0\<rparr>)"
    by (simp add: upload_eval str_int_1)
  have e3: "upload_file ''test/data'' ''sample.txt'' ''test/data/'' False
       (uploaded_world False [''sample.txt'', ''sample-1.txt'']) =
     Some (Inr ''sample-2.txt'',
           uploaded_world False [''sample.txt'', ''sample-1.txt'', ''sample-2.txt''],
           \<lparr>attempt_number = 1, idle_for = 0\<rparr>)"
    by (simp add: upload_eval str_int_1 str_int_2)
  have t1: "upload_file ''test/data'' ''sample.txt'' ''test/data/'' True sample_world =
     Some (Inr ''sample.txt'', uploaded_world True [''sample.txt''],
           \<lparr>attempt_number = 1, idle_for = 0\<rparr>)"
    by (simp add: upload_eval)
  have t2: "upload_file ''test/data'' ''sample.txt'' ''test/data/'' True
       (uploaded_world True [''sample.txt'']) =
     Some (Inr ''sample.txt'', uploaded_world True [''sample.txt'', ''sample.txt''],
           \<lparr>attempt_number = 1, idle_for = 0\<rparr>)"
    by (simp add: upload_eval)
  have t3: "upload_file ''test/data'' ''sample.txt'' ''test/data/'' True
       (uploaded_world True [''sample.txt'', ''sample.txt'']) =
     Some (Inr ''sample.txt'', uploaded_world True [''sample.txt'', ''sample.txt'', ''sample.txt''],
           \<lparr>attempt_number = 1, idle_for = 0\<rparr>)"
    by (simp add: upload_eval)
  from upload_file_three_uploads [OF p e1 e2 e3] have f: "distinct [''sample.txt'', ''sample-1.txt'', ''sample-2.txt''] \<and>
   set (file_names (uploaded_world False [''sample.txt'', ''sample-1.txt'', ''sample-2.txt''])
          (resolve [] ''test/data/'')) =
     set (file_names sample_world (resolve [] ''test/data/'')) \<union>
       {''sample.txt'', ''sample-1.txt'', ''sample-2.txt''}"
    by blast
  from upload_file_three_uploads [OF p t1 t2 t3] have t:
   "set (file_names (uploaded_world True [''sample.txt'', ''sample.txt'', ''sample.txt''])
          (resolve [] ''test/data/'')) =
     set (file_names sample_world (resolve [] ''test/data/'')) \<union>
       {''sample.txt'', ''sample.txt'', ''sample.txt''}"
    by blast
  from p e1 e2 e3 f t1 t2 t3 t show ?thesis by blast
qed

text \<open>
  C7. Three uploads of the same file name to one directory are to give three remote
  names, or one when \<open>rename_existing\<close> is true. Every upload runs \<open>makedirs\<close> first, which
  calls \<open>mkd\<close> for each segment of the directory and handles no error of it. On a
  server that answers \<open>MKD\<close> of a directory that exists with the error 550, the first
  upload creates the directory and stores the file, and the second ends in the first
  \<open>mkd\<close> of each of its three attempts: the caller gets a \<open>RetryError\<close>, and the
  directory still holds the one file.
\<close>

theorem upload_file_to_existing_directory_fails:
  "upload_file ''test/data'' ''sample.txt'' ''test/data/'' False
     (sample_world\<lparr>faults := faults existing_directory_world\<rparr>) =
     Some (Inr ''sample.txt'', existing_directory_world, \<lparr>attempt_number = 1, idle_for = 0\<rparr>) \<and>
   upload_file ''test/data'' ''sample.txt'' ''test/data/'' False existing_directory_world =
     Some (Inl (RetryError (FtpError ''550'')),
           existing_directory_world\<lparr>pwd := [],
             trace := trace existing_directory_world @
               [Cwd ''/'', Mkd ''test'', Cwd ''/'', Mkd ''test'', Cwd ''/'', Mkd ''test'']\<rparr>,
           \<lparr>attempt_number = 3, idle_for = 10\<rparr>) \<and>
   file_names existing_directory_world [''test'', ''data''] = [''sample.txt'']"
  by (simp add: upload_eval existing_directory_world_def file_names_def)

end
